theory Spec2Isabelle
  imports Main "HOL-Library.FSet"
begin

section \<open>Port conflict resolution (start\_local\_ai)\<close>

text \<open>
  \<^verbatim>\<open>
  def find_next_free_port(start, used):
      p = start
      while p in used or p < 1024:
          p += 1
      return p
  \<close>
  Ports are Python integers (\<open>int\<close>); \<open>used\<close> is a Python set, which is finite
  (\<open>int fset\<close>). The loop is the recursion; it ends because a finite set has only
  finitely many members at or above \<open>p\<close>.
\<close>

function find_next_free_port :: "int \<Rightarrow> int fset \<Rightarrow> int" where
  "find_next_free_port p used =
     (if p |\<in>| used \<or> p < 1024 then find_next_free_port (p + 1) used else p)"
  by pat_completeness auto
termination
proof (relation "measure (\<lambda>(p, used). card {x \<in> fset used. p \<le> x} + nat (1024 - p))")
  show "wf (measure (\<lambda>(p, used). card {x \<in> fset used. p \<le> x} + nat (1024 - p)))"
    by simp
next
  fix p :: int and used :: "int fset"
  assume c: "p |\<in>| used \<or> p < 1024"
  have sub: "{x \<in> fset used. p + 1 \<le> x} \<subseteq> {x \<in> fset used. p \<le> x}"
    by auto
  have fin: "finite {x \<in> fset used. p \<le> x}"
    by simp
  show "((p + 1, used), (p, used))
          \<in> measure (\<lambda>(p, used). card {x \<in> fset used. p \<le> x} + nat (1024 - p))"
  proof (cases "p |\<in>| used")
    case True
    then have "p \<in> {x \<in> fset used. p \<le> x}" and "p \<notin> {x \<in> fset used. p + 1 \<le> x}"
      by simp_all
    with sub have "{x \<in> fset used. p + 1 \<le> x} \<subset> {x \<in> fset used. p \<le> x}"
      by blast
    then have "card {x \<in> fset used. p + 1 \<le> x} < card {x \<in> fset used. p \<le> x}"
      using fin by (rule psubset_card_mono[rotated])
    then show ?thesis by simp
  next
    case False
    with c have lt: "p < 1024" by simp
    have "card {x \<in> fset used. p + 1 \<le> x} \<le> card {x \<in> fset used. p \<le> x}"
      using fin sub by (rule card_mono)
    with lt show ?thesis by simp
  qed
qed

declare find_next_free_port.simps [simp del]

text \<open>
  The resolution pass of start\_local\_ai. \<open>parsed\<close> is the list stored under the key
  \<open>'__anonymous__'\<close> by parse\_private\_override\_ports (the \<open>127.0.0.1:HOST:CONTAINER\<close>
  lines of the private override, in file order; empty when the key is absent), and
  \<open>listening\<close> is the set returned by get\_listening\_ports.
  \<^verbatim>\<open>
  remap = []
  if parsed and parsed.get('__anonymous__'):
      for host_p, cont_p in parsed['__anonymous__']:
          if host_p in listening:
              new_p = find_next_free_port(host_p + 1, listening)
              remap.append((host_p, cont_p, new_p))
              listening.add(new_p)
  \<close>
  The loop state is the pair of the two mutated variables.
\<close>

fun remap_loop ::
  "(int \<times> int) list \<Rightarrow> int fset \<times> (int \<times> int \<times> int) list
     \<Rightarrow> int fset \<times> (int \<times> int \<times> int) list" where
  "remap_loop [] st = st"
| "remap_loop ((host_p, cont_p) # rest) (listening, remap) =
     (if host_p |\<in>| listening
      then (let new_p = find_next_free_port (host_p + 1) listening
            in remap_loop rest (finsert new_p listening, remap @ [(host_p, cont_p, new_p)]))
      else remap_loop rest (listening, remap))"

definition resolve :: "(int \<times> int) list \<Rightarrow> int fset \<Rightarrow> (int \<times> int \<times> int) list" where
  "resolve parsed listening = snd (remap_loop parsed (listening, []))"

definition new_ports :: "(int \<times> int \<times> int) list \<Rightarrow> int fset" where
  "new_ports remap = fset_of_list (map (\<lambda>(host_p, cont_p, new_p). new_p) remap)"

section \<open>The configuration file reader (read\_env in prepare\_supabase\_env)\<close>

text \<open>
  Text is a list of characters; a \<^typ>\<open>char\<close> stands for the Unicode code point of the
  same number, so the model covers text whose code points are below 256. Paths are
  strings, and the files of the host are a map from paths to contents.
\<close>

type_synonym path = string
type_synonym files = "path \<rightharpoonup> string"

definition LF :: char where
  "LF = CHR 0x0A"

definition CR :: char where
  "CR = CHR 0x0D"

text \<open>
  Python's \<open>str.isspace\<close> on one character, as \<open>str.strip()\<close> without arguments uses
  it: below 256 the white space characters are 9 to 13, 28 to 32, 0x85 and 0xA0.
\<close>

definition isspace :: "char \<Rightarrow> bool" where
  "isspace c =
     (let n = (of_char c :: nat)
      in (9 \<le> n \<and> n \<le> 13) \<or> (28 \<le> n \<and> n \<le> 32) \<or> n = 133 \<or> n = 160)"

definition strip :: "string \<Rightarrow> string" where
  "strip s = rev (dropWhile isspace (rev (dropWhile isspace s)))"

definition startswith :: "string \<Rightarrow> string \<Rightarrow> bool" where
  "startswith s pre = (take (length pre) s = pre)"

text \<open>
  \<open>line.split("=", 1)\<close> on a line that contains \<open>=\<close>: the text before the first
  \<open>=\<close> and the text after it.
\<close>

definition split_eq :: "string \<Rightarrow> string \<times> string" where
  "split_eq line =
     (takeWhile (\<lambda>c. c \<noteq> CHR ''='') line, tl (dropWhile (\<lambda>c. c \<noteq> CHR ''='') line))"

text \<open>
  A file opened with \<open>open(path, "r")\<close> is read with universal newlines: \<open>\r\n\<close> and a
  lone \<open>\r\<close> arrive as \<open>\n\<close>, and iterating over the file yields the lines, each with
  its closing \<open>\n\<close> (the last line may have none).
\<close>

fun universal_newlines :: "string \<Rightarrow> string" where
  "universal_newlines [] = []"
| "universal_newlines [c] = [if c = CR then LF else c]"
| "universal_newlines (c # d # cs) =
     (if c = CR \<and> d = LF then LF # universal_newlines cs
      else if c = CR then LF # universal_newlines (d # cs)
      else c # universal_newlines (d # cs))"

fun file_lines :: "string \<Rightarrow> string list" where
  "file_lines [] = []"
| "file_lines (c # cs) =
     (if c = LF then [c] # file_lines cs
      else (case file_lines cs of [] \<Rightarrow> [[c]] | l # ls \<Rightarrow> (c # l) # ls))"

text \<open>
  \<^verbatim>\<open>
  def read_env(path):
      vals = {}
      if not os.path.exists(path):
          return vals
      with open(path, "r") as f:
          for line in f:
              line = line.strip()
              if not line or line.startswith("#") or "=" not in line:
                  continue
              k, v = line.split("=", 1)
              vals[k] = v
      return vals
  \<close>
  \<open>read_env_line\<close> is the body of the loop, \<open>read_env_lines\<close> the loop.
\<close>

definition read_env_line :: "(string \<rightharpoonup> string) \<Rightarrow> string \<Rightarrow> (string \<rightharpoonup> string)" where
  "read_env_line vals line0 =
     (let line = strip line0
      in if line = [] \<or> startswith line ''#'' \<or> CHR ''='' \<notin> set line then vals
         else (case split_eq line of (k, v) \<Rightarrow> vals(k \<mapsto> v)))"

definition read_env_lines :: "string list \<Rightarrow> (string \<rightharpoonup> string)" where
  "read_env_lines ls = foldl read_env_line Map.empty ls"

definition read_env :: "files \<Rightarrow> path \<Rightarrow> (string \<rightharpoonup> string)" where
  "read_env fs p =
     (case fs p of
        None \<Rightarrow> Map.empty
      | Some content \<Rightarrow> read_env_lines (file_lines (universal_newlines content)))"



section \<open>The host: processes, files, environment, clock\<close>

text \<open>
  The script acts on the host through child processes, the file system, the process
  environment, the clock and its own output. The state below holds what the script can
  change or observe of them; the world holds how the host answers, which the script does
  not decide.
\<close>

type_synonym environ = "string \<rightharpoonup> string"

text \<open>A child process as \<open>subprocess\<close> starts it: arguments, working directory,
  environment and timeout (seconds).\<close>

type_synonym child = "string list \<times> path option \<times> environ \<times> int option"

text \<open>
  What \<open>subprocess.run\<close> meets before it looks at \<open>check\<close>: the child exited with a
  return code and its captured output, or the timeout expired, or the executable was not
  found, or another exception came up.
\<close>

datatype proc_outcome =
    Exited int string string
  | TimeoutExpired
  | FileNotFoundError
  | OtherException

text \<open>The answer of a server to a GET: the status of the last response of the exchange
  (after the redirects \<open>urllib\<close> follows), or no response at all (connection refused or
  reset, or the socket timeout).\<close>

datatype http_answer = Answered int | NoAnswer

record world =
  proc :: "child \<Rightarrow> files \<Rightarrow> proc_outcome \<times> files"
    \<comment> \<open>the outcome of a child process and the files it leaves\<close>
  exc_text :: "string list \<Rightarrow> proc_outcome \<Rightarrow> string"
    \<comment> \<open>\<open>str(e)\<close> of the exception \<open>subprocess\<close> raises for an outcome of a command\<close>
  http :: "string \<Rightarrow> int \<Rightarrow> http_answer \<times> nat"
    \<comment> \<open>the answer to a GET of a URL sent at a time, and how long it took (ms)\<close>
  sys_executable :: string
  repo_dir :: path
    \<comment> \<open>\<open>os.path.dirname(os.path.abspath(__file__))\<close>\<close>
  which :: "string \<Rightarrow> bool"
    \<comment> \<open>whether \<open>shutil.which\<close> finds the program\<close>
  gettempdir :: path
    \<comment> \<open>the directory \<open>tempfile.mkstemp\<close> creates files in\<close>
  mkstemp_chars :: string
    \<comment> \<open>the characters \<open>tempfile.mkstemp\<close> chooses for the name of the new file\<close>

record state =
  environ :: environ
    \<comment> \<open>\<open>os.environ\<close>\<close>
  files :: files
  printed :: "string list"
    \<comment> \<open>one entry for each \<open>print\<close> call\<close>
  children :: "child list"
    \<comment> \<open>the child processes started so far\<close>
  clock :: int
    \<comment> \<open>\<open>time.time()\<close>, in milliseconds\<close>

text \<open>The exceptions that leave the functions modelled here.\<close>

datatype exn =
    CommandExecutionError (e_message: string) (e_cmd: "string list") (e_exit_code: int)
      (e_stdout: string) (e_stderr: string)
  | HTTPError int
  | URLError
  | IndexError
  | SubprocessException "string list" proc_outcome
    \<comment> \<open>what \<open>subprocess\<close> raises for an outcome, where the caller does not catch it\<close>

record CompletedProcess =
  returncode :: int
  stdout :: string
  stderr :: string

subsection \<open>Text helpers\<close>

definition print :: "string \<Rightarrow> state \<Rightarrow> state" where
  "print text s = s\<lparr>printed := printed s @ [text]\<rparr>"

text \<open>\<open>sep.join(xs)\<close>\<close>

fun join :: "string \<Rightarrow> string list \<Rightarrow> string" where
  "join sep [] = []"
| "join sep [x] = x"
| "join sep (x # y # ys) = x @ sep @ join sep (y # ys)"

text \<open>\<open>str(n)\<close> for an integer: decimal digits, with a minus sign below zero.\<close>

fun str_nat :: "nat \<Rightarrow> string" where
  "str_nat n =
     (if n < 10 then [char_of (48 + n)] else str_nat (n div 10) @ [char_of (48 + n mod 10)])"

declare str_nat.simps [simp del]

definition str_int :: "int \<Rightarrow> string" where
  "str_int i = (if i < 0 then ''-'' @ str_nat (nat (- i)) else str_nat (nat i))"

definition str_timeout :: "int option \<Rightarrow> string" where
  "str_timeout timeout = (case timeout of None \<Rightarrow> ''None'' | Some t \<Rightarrow> str_int t)"

text \<open>\<open>os.path.join\<close> (POSIX) and \<open>os.path.dirname\<close>.\<close>

fun os_path_join :: "path \<Rightarrow> path list \<Rightarrow> path" where
  "os_path_join a [] = a"
| "os_path_join a (b # bs) =
     (if startswith b ''/'' then os_path_join b bs
      else if a = [] \<or> last a = CHR ''/'' then os_path_join (a @ b) bs
      else os_path_join (a @ ''/'' @ b) bs)"


subsection \<open>The command runner\<close>

text \<open>
  \<^verbatim>\<open>
  def run_command(cmd, cwd=None, env_override=None, ignore_errors=False, timeout=None):
      print("Running:", " ".join(cmd))
      env = os.environ.copy()
      if env_override:
          env.update(env_override)
      try:
          result = subprocess.run(cmd, cwd=cwd, check=not ignore_errors, env=env,
                                  capture_output=True, text=True, timeout=timeout)
          if result.returncode != 0 and not ignore_errors:
              raise CommandExecutionError(...)
          if result.stdout:
              print("STDOUT:", result.stdout)
          if result.stderr and result.returncode == 0:
              print("STDERR:", result.stderr)
          return result
      except subprocess.TimeoutExpired as e:
          error_msg = f"Command timed out after {timeout} seconds: {' '.join(cmd)}"
          print(f"ERROR: {error_msg}")
          if not ignore_errors:
              raise CommandExecutionError(error_msg, cmd, -1, "", "Timeout")
          return None
      except FileNotFoundError as e:
          error_msg = f"Command not found: {cmd[0]}. Please ensure it's installed and in your PATH."
          print(f"ERROR: {error_msg}")
          if not ignore_errors:
              raise CommandExecutionError(error_msg, cmd, -1, "", str(e))
          return None
      except Exception as e:
          error_msg = f"Unexpected error running command: {e}"
          print(f"ERROR: {error_msg}")
          if not ignore_errors:
              raise CommandExecutionError(error_msg, cmd, -1, "", str(e))
          return None
  \<close>
  With \<open>check=True\<close> a non-zero return code makes \<open>subprocess.run\<close> raise
  CalledProcessError, which is an \<open>Exception\<close>: the last handler takes it, so the
  \<open>raise\<close> inside the \<open>try\<close> is never reached. The result is the raised exception
  (\<open>Inl\<close>), or the returned value: a CompletedProcess or \<open>None\<close>.
\<close>

definition run_command_failed ::
  "string \<Rightarrow> string list \<Rightarrow> string \<Rightarrow> bool \<Rightarrow> state \<Rightarrow> (exn + CompletedProcess option) \<times> state" where
  "run_command_failed error_msg cmd err ignore_errors s =
     (let s' = print (''ERROR: '' @ error_msg) s
      in if \<not> ignore_errors then (Inl (CommandExecutionError error_msg cmd (- 1) '''' err), s')
         else (Inr None, s'))"

text \<open>The environment of the child: a copy of \<open>os.environ\<close>, updated with the overrides.\<close>

definition child_env :: "environ option \<Rightarrow> state \<Rightarrow> environ" where
  "child_env env_override s = (case env_override of None \<Rightarrow> environ s | Some ov \<Rightarrow> environ s ++ ov)"

definition run_command ::
  "world \<Rightarrow> string list \<Rightarrow> path option \<Rightarrow> environ option \<Rightarrow> bool \<Rightarrow> int option \<Rightarrow> state
     \<Rightarrow> (exn + CompletedProcess option) \<times> state" where
  "run_command w cmd cwd env_override ignore_errors timeout s =
     (let s1 = print (''Running: '' @ join '' '' cmd) s;
          env = child_env env_override s1;
          (outcome, fs) = proc w (cmd, cwd, env, timeout) (files s1);
          s2 = s1\<lparr>children := children s1 @ [(cmd, cwd, env, timeout)], files := fs\<rparr>
      in case outcome of
           Exited rc out err \<Rightarrow>
             if rc \<noteq> 0 \<and> \<not> ignore_errors
             then run_command_failed
                    (''Unexpected error running command: '' @ exc_text w cmd outcome)
                    cmd (exc_text w cmd outcome) ignore_errors s2
             else (let s3 = (if out \<noteq> [] then print (''STDOUT: '' @ out) s2 else s2);
                       s4 = (if err \<noteq> [] \<and> rc = 0 then print (''STDERR: '' @ err) s3 else s3)
                   in (Inr (Some \<lparr>returncode = rc, stdout = out, stderr = err\<rparr>), s4))
         | TimeoutExpired \<Rightarrow>
             run_command_failed
               (''Command timed out after '' @ str_timeout timeout @ '' seconds: '' @ join '' '' cmd)
               cmd ''Timeout'' ignore_errors s2
         | FileNotFoundError \<Rightarrow>
             (case cmd of
                [] \<Rightarrow> (Inl IndexError, s2)
              | c # _ \<Rightarrow>
                  run_command_failed
                    (''Command not found: '' @ c @ ''. Please ensure it'' @ [CHR 0x27]
                       @ ''s installed and in your PATH.'')
                    cmd (exc_text w cmd outcome) ignore_errors s2)
         | OtherException \<Rightarrow>
             run_command_failed
               (''Unexpected error running command: '' @ exc_text w cmd outcome)
               cmd (exc_text w cmd outcome) ignore_errors s2)"

section \<open>Readiness waits\<close>

text \<open>
  \<open>urllib.request.urlopen\<close> with the default opener, as far as \<open>http_get\<close> uses it:
  the status of the response it returns, or the exception it raises. Its error processor
  hands every response whose status is not 2xx to the error handlers; what is left after
  the redirects is raised as HTTPError by the default handler. A request without a
  response raises URLError. The request takes the time the world gives.
\<close>

definition urlopen :: "world \<Rightarrow> string \<Rightarrow> state \<Rightarrow> (exn + int) \<times> state" where
  "urlopen w url s =
     (case http w url (clock s) of
        (answer, duration) \<Rightarrow>
          (let s' = s\<lparr>clock := clock s + int duration\<rparr>
           in case answer of
                NoAnswer \<Rightarrow> (Inl URLError, s')
              | Answered code \<Rightarrow>
                  if 200 \<le> code \<and> code < 300 then (Inr code, s') else (Inl (HTTPError code), s')))"

text \<open>
  \<^verbatim>\<open>
  def http_get(url, timeout=3):
      try:
          with urllib.request.urlopen(url, timeout=timeout) as r:
              return r.getcode()
      except Exception:
          return None
  \<close>
\<close>

definition http_get :: "world \<Rightarrow> string \<Rightarrow> state \<Rightarrow> int option \<times> state" where
  "http_get w url s =
     (case urlopen w url s of
        (Inr code, s') \<Rightarrow> (Some code, s')
      | (Inl e, s') \<Rightarrow> (None, s'))"

text \<open>The test \<open>code and code < 600\<close> on what a probe returned: \<open>None\<close> and \<open>0\<close> are
  false in Python.\<close>

definition acceptable :: "int option \<Rightarrow> bool" where
  "acceptable code = (case code of None \<Rightarrow> False | Some c \<Rightarrow> c \<noteq> 0 \<and> c < 600)"

definition sleep :: "int \<Rightarrow> state \<Rightarrow> state" where
  "sleep seconds s = s\<lparr>clock := clock s + 1000 * seconds\<rparr>"

text \<open>
  \<^verbatim>\<open>
  def wait_for_supabase(timeout=180):
      print("Waiting for Supabase (auth, rest) to become ready...")
      start = time.time()
      targets = {
          "auth": "http://localhost:9999/health",
          "rest": "http://localhost:8000/rest/v1/"
      }
      ready = set()
      while time.time() - start < timeout:
          for name, url in targets.items():
              if name in ready:
                  continue
              code = http_get(url)
              if code and code < 600:
                  print(f"  {name} up (HTTP {code})")
                  ready.add(name)
          if len(ready) == len(targets):
              print("Supabase core endpoints responding.")
              return True
          time.sleep(3)
      print("Timeout waiting for Supabase; proceeding anyway.")
      return False
  \<close>
  \<open>probe_targets\<close> is the inner \<open>for\<close> loop over the dictionary (in insertion order),
  \<open>wait_for_supabase_loop\<close> the \<open>while\<close> loop. Each turn of the \<open>while\<close> loop that
  does not return sleeps three seconds, so the time left decreases.
\<close>

definition supabase_targets :: "(string \<times> string) list" where
  "supabase_targets =
     [(''auth'', ''http://localhost:9999/health''), (''rest'', ''http://localhost:8000/rest/v1/'')]"

fun probe_targets ::
  "world \<Rightarrow> (string \<times> string) list \<Rightarrow> string fset \<Rightarrow> state \<Rightarrow> string fset \<times> state" where
  "probe_targets w [] ready s = (ready, s)"
| "probe_targets w ((name, url) # rest) ready s =
     (if name |\<in>| ready then probe_targets w rest ready s
      else (case http_get w url s of
              (code, s1) \<Rightarrow>
                if acceptable code
                then probe_targets w rest (finsert name ready)
                       (print (''  '' @ name @ '' up (HTTP '' @ str_int (the code) @ '')'') s1)
                else probe_targets w rest ready s1))"

lemma clock_print [simp]: "clock (print text s) = clock s"
  by (simp add: print_def)

lemma clock_http_get: "clock s \<le> clock (snd (http_get w url s))"
  by (simp add: http_get_def urlopen_def Let_def split: prod.splits sum.splits http_answer.splits)

lemma clock_probe_targets: "clock s \<le> clock (snd (probe_targets w targets ready s))"
proof (induction targets arbitrary: ready s)
  case Nil
  show ?case by simp
next
  case (Cons t targets)
  obtain name url where t: "t = (name, url)" by (cases t)
  obtain code s1 where g: "http_get w url s = (code, s1)" by (cases "http_get w url s")
  have s1: "clock s \<le> clock s1"
    using clock_http_get [of s w url] g by simp
  show ?case
  proof (cases "name |\<in>| ready")
    case True
    with t Cons.IH show ?thesis by simp
  next
    case False
    show ?thesis
    proof (cases "acceptable code")
      case True
      let ?s2 = "print (''  '' @ name @ '' up (HTTP '' @ str_int (the code) @ '')'') s1"
      have "clock ?s2 \<le> clock (snd (probe_targets w targets (finsert name ready) ?s2))"
        by (rule Cons.IH)
      with s1 t g False True show ?thesis by simp
    next
      case no: False
      have "clock s1 \<le> clock (snd (probe_targets w targets ready s1))"
        by (rule Cons.IH)
      with s1 t g False no show ?thesis by simp
    qed
  qed
qed

function wait_for_supabase_loop ::
  "world \<Rightarrow> int \<Rightarrow> int \<Rightarrow> string fset \<Rightarrow> state \<Rightarrow> bool \<times> state" where
  "wait_for_supabase_loop w start timeout ready s =
     (if clock s - start < 1000 * timeout
      then (case probe_targets w supabase_targets ready s of
              (ready', s1) \<Rightarrow>
                if fcard ready' = length supabase_targets
                then (True, print ''Supabase core endpoints responding.'' s1)
                else wait_for_supabase_loop w start timeout ready' (sleep 3 s1))
      else (False, print ''Timeout waiting for Supabase; proceeding anyway.'' s))"
  by pat_completeness auto
termination
proof (relation "measure (\<lambda>(w, start, timeout, ready, s). nat (start + 1000 * timeout - clock s))")
  show "wf (measure (\<lambda>(w, start, timeout, ready, s). nat (start + 1000 * timeout - clock s)))"
    by simp
next
  fix w :: world and start timeout :: int and ready ready' :: "string fset" and s s1 :: state
  assume running: "clock s - start < 1000 * timeout"
    and pr: "(ready', s1) = probe_targets w supabase_targets ready s"
  from pr have "s1 = snd (probe_targets w supabase_targets ready s)"
    by (metis snd_conv)
  then have "clock s \<le> clock s1"
    using clock_probe_targets [of s w supabase_targets ready] by simp
  then have "clock s < clock (sleep 3 s1)"
    by (simp add: sleep_def)
  with running
  show "((w, start, timeout, ready', sleep 3 s1), (w, start, timeout, ready, s))
          \<in> measure (\<lambda>(w, start, timeout, ready, s). nat (start + 1000 * timeout - clock s))"
    by simp
qed

declare wait_for_supabase_loop.simps [simp del]

definition wait_for_supabase :: "world \<Rightarrow> int \<Rightarrow> state \<Rightarrow> bool \<times> state" where
  "wait_for_supabase w timeout s =
     (let s1 = print ''Waiting for Supabase (auth, rest) to become ready...'' s
      in wait_for_supabase_loop w (clock s1) timeout {||} s1)"

subsection \<open>Child processes started directly\<close>

text \<open>
  \<open>subprocess.run\<close>, \<open>subprocess.call\<close> and \<open>subprocess.check_output\<close> without an
  \<open>env\<close> argument: the child inherits \<open>os.environ\<close>. \<open>check_output\<close> returns the
  captured output of a child that exited with 0 and raises for every other outcome;
  \<open>call\<close> returns the return code and raises where the child did not exit.
\<close>

definition subprocess :: "world \<Rightarrow> string list \<Rightarrow> path option \<Rightarrow> state \<Rightarrow> proc_outcome \<times> state" where
  "subprocess w cmd cwd s =
     (case proc w (cmd, cwd, environ s, None) (files s) of
        (outcome, fs) \<Rightarrow>
          (outcome, s\<lparr>children := children s @ [(cmd, cwd, environ s, None)], files := fs\<rparr>))"

definition check_output :: "world \<Rightarrow> string list \<Rightarrow> state \<Rightarrow> (proc_outcome + string) \<times> state" where
  "check_output w cmd s =
     (case subprocess w cmd None s of
        (Exited rc out err, s') \<Rightarrow> if rc = 0 then (Inr out, s') else (Inl (Exited rc out err), s')
      | (outcome, s') \<Rightarrow> (Inl outcome, s'))"

text \<open>\<open>subprocess.check_output(..., text=True)\<close>: the output is text, read with universal
  newlines.\<close>

definition check_output_text :: "world \<Rightarrow> string list \<Rightarrow> state \<Rightarrow> (proc_outcome + string) \<times> state" where
  "check_output_text w cmd s =
     (case check_output w cmd s of
        (Inr out, s') \<Rightarrow> (Inr (universal_newlines out), s')
      | (Inl outcome, s') \<Rightarrow> (Inl outcome, s'))"


text \<open>\<open>str.splitlines()\<close>: below 256 the line boundaries are \<open>\n\<close>, \<open>\r\<close>, \<open>\r\n\<close>,
  0x0B, 0x0C, 0x1C, 0x1D, 0x1E and 0x85.\<close>

definition is_linebreak :: "char \<Rightarrow> bool" where
  "is_linebreak c =
     (let n = (of_char c :: nat) in (10 \<le> n \<and> n \<le> 13) \<or> (28 \<le> n \<and> n \<le> 30) \<or> n = 133)"

fun splitlines :: "string \<Rightarrow> string list" where
  "splitlines [] = []"
| "splitlines [c] = (if is_linebreak c then [[]] else [[c]])"
| "splitlines (c # d # cs) =
     (if c = CR \<and> d = LF then [] # splitlines cs
      else if is_linebreak c then [] # splitlines (d # cs)
      else (case splitlines (d # cs) of [] \<Rightarrow> [[c]] | l # ls \<Rightarrow> (c # l) # ls))"

text \<open>
  \<open>out.isdigit()\<close> followed by \<open>int(out)\<close>: \<open>isdigit\<close> also accepts the superscript
  digits 0xB2, 0xB3 and 0xB9, on which \<open>int\<close> raises ValueError. \<open>parse_digits\<close> is the
  integer where both succeed.
\<close>

definition ascii_digit :: "char \<Rightarrow> bool" where
  "ascii_digit c = (48 \<le> (of_char c :: nat) \<and> (of_char c :: nat) \<le> 57)"


definition int_of_digits :: "string \<Rightarrow> int" where
  "int_of_digits text = foldl (\<lambda>a c. 10 * a + (int (of_char c) - 48)) 0 text"


text \<open>Quotation marks inside command lines.\<close>

definition sq :: string where
  "sq = [CHR 0x27]"


subsection \<open>wait\_for\_neo4j\<close>























section \<open>Reading declared and listening ports\<close>

text \<open>
  The regular expressions of start\_local\_ai, written out as scans. \<open>\d\<close> matches a
  decimal digit (below 256: \<open>0\<close> to \<open>9\<close>) and \<open>\s\<close> the white space of
  \<open>str.isspace\<close>. In each pattern a run of digits or of white space is followed by
  something that is neither, so the greedy match is the only one.
\<close>

text \<open>
  \<open>re.match(r"-\s*127\.0\.0\.1:(\d+):(\d+)", line)\<close>, with the two groups as integers.
\<close>

definition match_loopback_ports :: "string \<Rightarrow> (int \<times> int) option" where
  "match_loopback_ports line =
     (case line of
        [] \<Rightarrow> None
      | c # rest \<Rightarrow>
          if c = CHR ''-'' \<and> startswith (dropWhile isspace rest) ''127.0.0.1:''
          then (let after_ip = drop 10 (dropWhile isspace rest);
                    host_digits = takeWhile ascii_digit after_ip;
                    after_host = dropWhile ascii_digit after_ip;
                    cont_digits = takeWhile ascii_digit (tl after_host)
                in if host_digits \<noteq> [] \<and> startswith after_host '':'' \<and> cont_digits \<noteq> []
                   then Some (int_of_digits host_digits, int_of_digits cont_digits)
                   else None)
          else None)"

text \<open>
  \<^verbatim>\<open>
  def parse_private_override_ports(path):
      svc_ports = {}
      if not os.path.exists(path):
          return svc_ports
      try:
          with open(path, 'r') as f:
              for line in f:
                  line = line.strip()
                  m = re.match(r"-\s*127\.0\.0\.1:(\d+):(\d+)", line)
                  if m:
                      host_p = int(m.group(1))
                      cont_p = int(m.group(2))
                      svc_ports.setdefault('__anonymous__', []).append((host_p, cont_p))
      except Exception:
          return svc_ports
      return svc_ports
  \<close>
  The result is the list under the only key, \<open>'__anonymous__'\<close>; it is empty where the
  dictionary has no key.
\<close>

definition parse_private_override_ports :: "files \<Rightarrow> path \<Rightarrow> (int \<times> int) list" where
  "parse_private_override_ports fs p =
     (case fs p of
        None \<Rightarrow> []
      | Some content \<Rightarrow>
          List.map_filter (\<lambda>line. match_loopback_ports (strip line))
            (file_lines (universal_newlines content)))"

text \<open>\<open>re.search(r":(\d+)\s", line)\<close>: the first colon that is followed by digits and
  then white space.\<close>

fun search_port_ss :: "string \<Rightarrow> int option" where
  "search_port_ss [] = None"
| "search_port_ss (c # cs) =
     (if c = CHR '':'' \<and> takeWhile ascii_digit cs \<noteq> []
         \<and> (case dropWhile ascii_digit cs of [] \<Rightarrow> False | d # ds \<Rightarrow> isspace d)
      then Some (int_of_digits (takeWhile ascii_digit cs))
      else search_port_ss cs)"

text \<open>\<open>re.search(r":(\d+)->|:(\d+) \(LISTEN\)|:(\d+)$", line)\<close>: the first colon that is
  followed by digits and then by \<open>->\<close>, by \<open> (LISTEN)\<close> or by the end of the line.
  Exactly one group takes part in a match.\<close>

fun search_port_lsof :: "string \<Rightarrow> int option" where
  "search_port_lsof [] = None"
| "search_port_lsof (c # cs) =
     (if c = CHR '':'' \<and> takeWhile ascii_digit cs \<noteq> []
         \<and> (startswith (dropWhile ascii_digit cs) ''->''
              \<or> startswith (dropWhile ascii_digit cs) '' (LISTEN)''
              \<or> dropWhile ascii_digit cs = [])
      then Some (int_of_digits (takeWhile ascii_digit cs))
      else search_port_lsof cs)"

text \<open>
  \<^verbatim>\<open>
  def get_listening_ports():
      ports = set()
      try:
          out = subprocess.check_output(["ss", "-ltnp"], text=True)
          for line in out.splitlines():
              m = re.search(r":(\d+)\s", line)
              if m:
                  try:
                      ports.add(int(m.group(1)))
                  except Exception:
                      continue
      except Exception:
          try:
              out = subprocess.check_output(["lsof", "-iTCP","-sTCP:LISTEN","-P","-n"], text=True)
              for line in out.splitlines():
                  m = re.search(r":(\d+)->|:(\d+) \(LISTEN\)|:(\d+)$", line)
                  if m:
                      for g in m.groups():
                          if g:
                              ports.add(int(g))
          except Exception:
              return ports
      return ports
  \<close>
\<close>

definition get_listening_ports :: "world \<Rightarrow> state \<Rightarrow> int fset \<times> state" where
  "get_listening_ports w s =
     (case check_output_text w [''ss'', ''-ltnp''] s of
        (Inr out, s1) \<Rightarrow> (fset_of_list (List.map_filter search_port_ss (splitlines out)), s1)
      | (Inl e, s1) \<Rightarrow>
          (case check_output_text w [''lsof'', ''-iTCP'', ''-sTCP:LISTEN'', ''-P'', ''-n''] s1 of
             (Inr out, s2) \<Rightarrow> (fset_of_list (List.map_filter search_port_lsof (splitlines out)), s2)
           | (Inl e2, s2) \<Rightarrow> ({||}, s2)))"

text \<open>
  The scan of docker-compose.yml for the service of each container port.
  \<^verbatim>\<open>
  contport_to_service = {}
  try:
      with open(compose_path, 'r') as f:
          cur_service = None
          for line in f:
              msvc = re.match(r'^(\s*)([a-zA-Z0-9_-]+):\s*$', line)
              if msvc and line.startswith('  '):
                  cur_service = line.strip().split(':')[0]
              pm = re.search(r"-\s*(\d+)(?:/tcp)?\s*$", line.strip())
              if pm and cur_service:
                  try:
                      cp = int(pm.group(1))
                      contport_to_service[cp] = cur_service
                  except Exception:
                      continue
  except Exception:
      pass
  \<close>
\<close>

definition name_char :: "char \<Rightarrow> bool" where
  "name_char c =
     (let n = (of_char c :: nat)
      in (97 \<le> n \<and> n \<le> 122) \<or> (65 \<le> n \<and> n \<le> 90) \<or> (48 \<le> n \<and> n \<le> 57) \<or> n = 95 \<or> n = 45)"

text \<open>\<open>re.match(r'^(\s*)([a-zA-Z0-9_-]+):\s*$', line)\<close>\<close>

definition match_key_line :: "string \<Rightarrow> bool" where
  "match_key_line line =
     (let after_indent = dropWhile isspace line;
          after_name = dropWhile name_char after_indent
      in takeWhile name_char after_indent \<noteq> [] \<and> startswith after_name '':''
         \<and> dropWhile isspace (tl after_name) = [])"

text \<open>\<open>re.search(r"-\s*(\d+)(?:/tcp)?\s*$", text)\<close>: the first hyphen after which only
  white space, digits, an optional \<open>/tcp\<close> and white space follow.\<close>

definition port_tail :: "string \<Rightarrow> int option" where
  "port_tail text =
     (let after_space = dropWhile isspace text;
          port_digits = takeWhile ascii_digit after_space;
          after_digits = dropWhile ascii_digit after_space;
          after_proto = (if startswith after_digits ''/tcp'' then drop 4 after_digits else after_digits)
      in if port_digits \<noteq> [] \<and> dropWhile isspace after_proto = []
         then Some (int_of_digits port_digits) else None)"

fun search_port_item :: "string \<Rightarrow> int option" where
  "search_port_item [] = None"
| "search_port_item (c # cs) =
     (if c = CHR ''-'' \<and> port_tail cs \<noteq> None then port_tail cs else search_port_item cs)"

text \<open>The body of the loop over the lines: the current service and the lookup.\<close>

definition scan_compose_line ::
  "string option \<times> (int \<rightharpoonup> string) \<Rightarrow> string \<Rightarrow> string option \<times> (int \<rightharpoonup> string)" where
  "scan_compose_line st line =
     (case st of
        (cur_service, lookup) \<Rightarrow>
          (let cur = (if match_key_line line \<and> startswith line ''  ''
                      then Some (takeWhile (\<lambda>c. c \<noteq> CHR '':'') (strip line))
                      else cur_service)
           in case (search_port_item (strip line), cur) of
                (Some cp, Some svc) \<Rightarrow> if svc \<noteq> [] then (cur, lookup(cp \<mapsto> svc)) else (cur, lookup)
              | _ \<Rightarrow> (cur, lookup)))"

definition scan_compose :: "files \<Rightarrow> path \<Rightarrow> (int \<rightharpoonup> string)" where
  "scan_compose fs p =
     (case fs p of
        None \<Rightarrow> Map.empty
      | Some content \<Rightarrow>
          snd (foldl scan_compose_line (None, Map.empty) (file_lines (universal_newlines content))))"

section \<open>Starting and stopping the stacks\<close>

text \<open>
  The functions below call run\_command inside \<open>try ... except subprocess.CalledProcessError\<close>.
  run\_command turns every exception of \<open>subprocess.run\<close> into \<open>None\<close> or into a
  CommandExecutionError, which is not a CalledProcessError, so these handlers never run and
  the error of run\_command leaves the caller. The result of each function is the exception
  that leaves it (\<open>Inl\<close>) or its normal return (\<open>Inr\<close>).
\<close>

text \<open>\<open>os.environ.get("DOCKER_SOCKET_LOCATION", "/var/run/docker.sock")\<close> as the one
  override every compose command gets.\<close>

definition docker_env_override :: "state \<Rightarrow> environ" where
  "docker_env_override s =
     [''DOCKER_SOCKET_LOCATION'' \<mapsto>
        (case environ s ''DOCKER_SOCKET_LOCATION'' of
           None \<Rightarrow> ''/var/run/docker.sock''
         | Some v \<Rightarrow> v)]"

text \<open>\<open>if profile and profile != "none": cmd.extend(["--profile", profile])\<close>\<close>

definition profile_args :: "string option \<Rightarrow> string list" where
  "profile_args profile =
     (case profile of
        None \<Rightarrow> []
      | Some p \<Rightarrow> if p \<noteq> [] \<and> p \<noteq> ''none'' then [''--profile'', p] else [])"

definition discard :: "(exn + 'a) \<times> state \<Rightarrow> (exn + unit) \<times> state" where
  "discard r = (case r of (Inl e, s) \<Rightarrow> (Inl e, s) | (Inr v, s) \<Rightarrow> (Inr (), s))"




subsection \<open>start\_local\_ai\<close>

text \<open>
  \<^verbatim>\<open>
  def ensure_local_images():
      portal_image = "localai-portal:latest"
      try:
          subprocess.run(["docker", "image", "inspect", portal_image], check=True, ...)
          print(f"Local image {portal_image} already exists; skipping local build.")
          return
      except subprocess.CalledProcessError:
          portal_dir = os.path.join(os.path.dirname(os.path.abspath(__file__)), "portal")
          dockerfile = os.path.join(portal_dir, "Dockerfile")
          if os.path.exists(dockerfile):
              print(f"Local image {portal_image} not found. Building from {portal_dir}...")
              try:
                  run_command(["docker", "build", "-t", portal_image, "."], cwd=portal_dir)
                  print(f"Built {portal_image} successfully.")
              except subprocess.CalledProcessError as e:
                  ...
          else:
              print(f"Portal Dockerfile not found at {dockerfile}; skipping local portal build.")
  \<close>
  Here \<open>subprocess.run\<close> is called directly: a non-zero return code raises
  CalledProcessError, which is caught; its other exceptions leave the function.
\<close>

definition portal_image :: string where
  "portal_image = ''localai-portal:latest''"

definition ensure_local_images :: "world \<Rightarrow> state \<Rightarrow> (exn + unit) \<times> state" where
  "ensure_local_images w s =
     (let inspect = [''docker'', ''image'', ''inspect'', portal_image]
      in case subprocess w inspect None s of
           (Exited rc out err, s1) \<Rightarrow>
             if rc = 0
             then (Inr (), print (''Local image '' @ portal_image
                                    @ '' already exists; skipping local build.'') s1)
             else (let portal_dir = os_path_join (repo_dir w) [''portal''];
                       dockerfile = os_path_join portal_dir [''Dockerfile'']
                   in if files s1 dockerfile \<noteq> None
                      then (let s2 = print (''Local image '' @ portal_image
                                              @ '' not found. Building from '' @ portal_dir @ ''...'') s1
                            in case run_command w [''docker'', ''build'', ''-t'', portal_image, ''.'']
                                      (Some portal_dir) None False None s2 of
                                 (Inl e, s3) \<Rightarrow> (Inl e, s3)
                               | (Inr r, s3) \<Rightarrow>
                                   (Inr (), print (''Built '' @ portal_image @ '' successfully.'') s3))
                      else (Inr (), print (''Portal Dockerfile not found at '' @ dockerfile
                                             @ ''; skipping local portal build.'') s1))
         | (outcome, s1) \<Rightarrow> (Inl (SubprocessException inspect outcome), s1))"

text \<open>
  The overlay document.
  \<^verbatim>\<open>
  svc_to_ports = {}
  for host_p, cont_p, new_p in remap:
      svc = contport_to_service.get(cont_p, None)
      srvname = svc if svc else f'unknown_{cont_p}'
      svc_to_ports.setdefault(srvname, []).append((new_p, cont_p))

  lines = ["version: '3'", "services:"]
  for srvname, ports in svc_to_ports.items():
      lines.append(f"  {srvname}:")
      lines.append("    ports:")
      for new_p, cont_p in ports:
          lines.append(f"      - '127.0.0.1:{new_p}:{cont_p}'")
  \<close>
  The dictionary keeps its keys in insertion order: an association list.
\<close>

fun setdefault_append ::
  "(string \<times> (int \<times> int) list) list \<Rightarrow> string \<Rightarrow> int \<times> int \<Rightarrow> (string \<times> (int \<times> int) list) list" where
  "setdefault_append [] k v = [(k, [v])]"
| "setdefault_append ((k', vs) # rest) k v =
     (if k' = k then (k', vs @ [v]) # rest else (k', vs) # setdefault_append rest k v)"

definition srvname_of :: "(int \<rightharpoonup> string) \<Rightarrow> int \<Rightarrow> string" where
  "srvname_of lookup cont_p =
     (case lookup cont_p of
        None \<Rightarrow> ''unknown_'' @ str_int cont_p
      | Some svc \<Rightarrow> if svc \<noteq> [] then svc else ''unknown_'' @ str_int cont_p)"

definition svc_to_ports ::
  "(int \<rightharpoonup> string) \<Rightarrow> (int \<times> int \<times> int) list \<Rightarrow> (string \<times> (int \<times> int) list) list" where
  "svc_to_ports lookup remap =
     foldl (\<lambda>acc (host_p, cont_p, new_p). setdefault_append acc (srvname_of lookup cont_p) (new_p, cont_p))
       [] remap"

definition overlay_lines :: "(string \<times> (int \<times> int) list) list \<Rightarrow> string list" where
  "overlay_lines groups =
     [''version: '' @ sq @ ''3'' @ sq, ''services:'']
     @ concat (map (\<lambda>(srvname, ports).
                 [''  '' @ srvname @ '':'', ''    ports:'']
                 @ map (\<lambda>(new_p, cont_p).
                          ''      - '' @ sq @ ''127.0.0.1:'' @ str_int new_p @ '':'' @ str_int cont_p @ sq)
                     ports)
               groups)"

definition overlay_document :: "(int \<rightharpoonup> string) \<Rightarrow> (int \<times> int \<times> int) list \<Rightarrow> string" where
  "overlay_document lookup remap = join [LF] (overlay_lines (svc_to_ports lookup remap)) @ [LF]"

text \<open>\<open>tempfile.mkstemp(prefix='docker-override-', suffix='.yml')\<close>: the path of the new
  file, in the temporary directory, with the characters the world chooses in between.\<close>

definition mkstemp :: "world \<Rightarrow> path" where
  "mkstemp w = os_path_join (gettempdir w) [''docker-override-'' @ mkstemp_chars w @ ''.yml'']"

text \<open>
  \<^verbatim>\<open>
  def start_local_ai(profile=None, environment=None):
      print("Starting local AI services...")
      ensure_local_images()
      parsed = parse_private_override_ports(private_override)
      listening = get_listening_ports()
      temp_override_path = None
      remap = []
      (the resolution pass, which prints one line for each remap)
      if remap:
          (contport_to_service, svc_to_ports, lines)
          fd, temp_path = tempfile.mkstemp(prefix='docker-override-', suffix='.yml')
          with os.fdopen(fd, 'w') as tf:
              tf.write('\n'.join(lines) + '\n')
          temp_override_path = temp_path
          print(f"Wrote temporary compose override to {temp_override_path}")
      cmd = ["docker", "compose", "-p", "localai"]
      if profile and profile != "none":
          cmd.extend(["--profile", profile])
      cmd.extend(["-f", "docker-compose.yml"])
      if environment and environment == "private":
          cmd.extend(["-f", "docker-compose.override.private.yml"])
      if environment and environment == "public":
          cmd.extend(["-f", "docker-compose.override.public.yml"])
      if temp_override_path:
          cmd.extend(["-f", temp_override_path])
      cmd.extend(["up", "-d"])
      env_override = {"DOCKER_SOCKET_LOCATION": os.environ.get(...)}
      try:
          run_command(cmd, env_override=env_override)
      except subprocess.CalledProcessError as e:
          ...
          raise
      finally:
          if temp_override_path and os.path.exists(temp_override_path):
              try:
                  os.remove(temp_override_path)
                  print(f"Removed temporary override file {temp_override_path}")
              except Exception:
                  pass
  \<close>
  Files are written and removed without failure.
\<close>

definition private_override :: "world \<Rightarrow> path" where
  "private_override w = os_path_join (repo_dir w) [''docker-compose.override.private.yml'']"

definition compose_path :: "world \<Rightarrow> path" where
  "compose_path w = os_path_join (repo_dir w) [''docker-compose.yml'']"

definition print_remaps :: "(int \<times> int \<times> int) list \<Rightarrow> state \<Rightarrow> state" where
  "print_remaps remap s =
     foldl (\<lambda>s' (host_p, cont_p, new_p).
              print (''Port '' @ str_int host_p @ '' is already in use on the host; remapping to ''
                       @ str_int new_p @ '' in a temporary override file.'') s')
       s remap"

text \<open>The part of start\_local\_ai from \<open>parsed = ...\<close> to the end of the resolution pass:
  the list \<open>remap\<close> and the state. The lines the pass prints come after the child
  processes of get\_listening\_ports, as in the source.\<close>

definition detect_port_conflicts :: "world \<Rightarrow> state \<Rightarrow> (int \<times> int \<times> int) list \<times> state" where
  "detect_port_conflicts w s =
     (let parsed = parse_private_override_ports (files s) (private_override w)
      in case get_listening_ports w s of
           (listening, s1) \<Rightarrow>
             (let remap = resolve parsed listening in (remap, print_remaps remap s1)))"

text \<open>The part from \<open>if remap:\<close> to the \<open>print\<close> after the file is written: the value of
  \<open>temp_override_path\<close> and the state.\<close>

definition write_overlay :: "world \<Rightarrow> (int \<times> int \<times> int) list \<Rightarrow> state \<Rightarrow> path option \<times> state" where
  "write_overlay w remap s =
     (if remap \<noteq> []
      then (Some (mkstemp w),
            print (''Wrote temporary compose override to '' @ mkstemp w)
              (s\<lparr>files := (files s)(mkstemp w \<mapsto>
                                      overlay_document (scan_compose (files s) (compose_path w)) remap)\<rparr>))
      else (None, s))"

text \<open>The compose command of the main stack.\<close>

definition compose_up_cmd :: "string option \<Rightarrow> string option \<Rightarrow> path option \<Rightarrow> string list" where
  "compose_up_cmd profile environment temp_override_path =
     [''docker'', ''compose'', ''-p'', ''localai''] @ profile_args profile
     @ [''-f'', ''docker-compose.yml'']
     @ (if environment = Some ''private'' then [''-f'', ''docker-compose.override.private.yml''] else [])
     @ (if environment = Some ''public'' then [''-f'', ''docker-compose.override.public.yml''] else [])
     @ (case temp_override_path of
          None \<Rightarrow> []
        | Some t \<Rightarrow> if t \<noteq> [] then [''-f'', t] else [])
     @ [''up'', ''-d'']"

text \<open>The \<open>finally\<close> block.\<close>

definition remove_overlay :: "path option \<Rightarrow> state \<Rightarrow> state" where
  "remove_overlay temp_override_path s =
     (case temp_override_path of
        None \<Rightarrow> s
      | Some t \<Rightarrow>
          if t \<noteq> [] \<and> files s t \<noteq> None
          then print (''Removed temporary override file '' @ t) (s\<lparr>files := (files s)(t := None)\<rparr>)
          else s)"

definition start_local_ai ::
  "world \<Rightarrow> string option \<Rightarrow> string option \<Rightarrow> state \<Rightarrow> (exn + unit) \<times> state" where
  "start_local_ai w profile environment s =
     (case ensure_local_images w (print ''Starting local AI services...'' s) of
        (Inl e, s1) \<Rightarrow> (Inl e, s1)
      | (Inr u, s1) \<Rightarrow>
          (case detect_port_conflicts w s1 of
             (remap, s2) \<Rightarrow>
               (case write_overlay w remap s2 of
                  (temp_override_path, s3) \<Rightarrow>
                    (case run_command w (compose_up_cmd profile environment temp_override_path) None
                            (Some (docker_env_override s3)) False None s3 of
                       (r, s4) \<Rightarrow> discard (r, remove_overlay temp_override_path s4)))))"

subsection \<open>start\_nextjs\_dev\<close>



subsection \<open>The launch phases of main\<close>

text \<open>The parsed command line.\<close>

record args =
  arg_profile :: string
  arg_environment :: string
  arg_skip_neo4j :: bool
  arg_start_nextjs :: bool
  arg_preflight :: bool





section \<open>The environment files (prepare\_supabase\_env)\<close>

definition root_env :: "world \<Rightarrow> path" where
  "root_env w = os_path_join (repo_dir w) [''.env'']"

definition supabase_env :: "world \<Rightarrow> path" where
  "supabase_env w = os_path_join (repo_dir w) [''supabase'', ''docker'', ''.env'']"

definition gen_script :: "world \<Rightarrow> path" where
  "gen_script w = os_path_join (repo_dir w) [''scripts'', ''gen_all_in_one_env.py'']"

definition gen_fallback :: "world \<Rightarrow> path" where
  "gen_fallback w = os_path_join (repo_dir w) [''scripts'', ''generate_env.py'']"

text \<open>
  The fallback generator, as both places of prepare\_supabase\_env run it (they differ in
  the three messages):
  \<^verbatim>\<open>
  print(...)
  try:
      out = subprocess.check_output([sys.executable, gen_fallback])
      with open(root_env, "wb") as f:
          f.write(out)
      print(...)
  except Exception as e:
      print(..., e)
  \<close>
\<close>

definition run_fallback_generator :: "world \<Rightarrow> string \<Rightarrow> string \<Rightarrow> string \<Rightarrow> state \<Rightarrow> state" where
  "run_fallback_generator w announce done failed s =
     (case check_output w [sys_executable w, gen_fallback w] (print announce s) of
        (Inr out, s1) \<Rightarrow> print done (s1\<lparr>files := (files s1)(root_env w \<mapsto> out)\<rparr>)
      | (Inl outcome, s1) \<Rightarrow>
          print (failed @ '' '' @ exc_text w [sys_executable w, gen_fallback w] outcome) s1)"

text \<open>
  \<^verbatim>\<open>
  def generate_env_if_missing():
      gen_script = os.path.join(repo_dir, "scripts", "gen_all_in_one_env.py")
      gen_fallback = os.path.join(repo_dir, "scripts", "generate_env.py")
      if os.path.exists(gen_script):
          print("Generating .env from scripts/gen_all_in_one_env.py...")
          try:
              run_command([sys.executable, gen_script], cwd=repo_dir)
              print("gen_all_in_one_env.py completed; expecting .env in repo root")
          except subprocess.CalledProcessError:
              print("gen_all_in_one_env.py failed; trying generate_env.py fallback")
      if not os.path.exists(root_env) and os.path.exists(gen_fallback):
          (the fallback generator)
  \<close>
  run\_command raises CommandExecutionError, which the handler does not catch.
\<close>

definition generate_env_if_missing :: "world \<Rightarrow> state \<Rightarrow> (exn + unit) \<times> state" where
  "generate_env_if_missing w s =
     (case (if files s (gen_script w) \<noteq> None
            then (case run_command w [sys_executable w, gen_script w] (Some (repo_dir w)) None False None
                         (print ''Generating .env from scripts/gen_all_in_one_env.py...'' s) of
                    (Inl e, s1) \<Rightarrow> (Inl e, s1)
                  | (Inr r, s1) \<Rightarrow>
                      (Inr (), print ''gen_all_in_one_env.py completed; expecting .env in repo root'' s1))
            else (Inr (), s)) of
        (Inl e, s2) \<Rightarrow> (Inl e, s2)
      | (Inr u, s2) \<Rightarrow>
          (Inr (),
           if files s2 (root_env w) = None \<and> files s2 (gen_fallback w) \<noteq> None
           then run_fallback_generator w
                  ''Generating .env from scripts/generate_env.py (fallback)...''
                  ''Wrote generated .env to repo root''
                  ''Failed to auto-generate .env:'' s2
           else s2))"

text \<open>
  \<^verbatim>\<open>
  required = ["POSTGRES_HOST", "POSTGRES_DB", "POSTGRES_PORT", "NEO4J_AUTH",
              "DOCKER_SOCKET_LOCATION"]
  env_vals = read_env(root_env)
  missing = [k for k in required if not env_vals.get(k)]
  \<close>
  \<open>print\<close> shows the list \<open>missing\<close> as Python writes a list of such names.
\<close>

definition required :: "string list" where
  "required = [''POSTGRES_HOST'', ''POSTGRES_DB'', ''POSTGRES_PORT'', ''NEO4J_AUTH'',
               ''DOCKER_SOCKET_LOCATION'']"

definition missing_keys :: "world \<Rightarrow> state \<Rightarrow> string list" where
  "missing_keys w s =
     filter (\<lambda>k. case read_env (files s) (root_env w) k of None \<Rightarrow> True | Some v \<Rightarrow> v = [])
       required"

definition repr_names :: "string list \<Rightarrow> string" where
  "repr_names ks = ''['' @ join '', '' (map (\<lambda>k. sq @ k @ sq) ks) @ '']''"

text \<open>
  \<^verbatim>\<open>
  def prepare_supabase_env():
      ...
      if not os.path.exists(root_env):
          print("No .env found in repo root; attempting to auto-generate one...")
          generate_env_if_missing()
      ...
      if missing:
          print("Some required .env keys are missing or empty:", missing)
          print("Attempting to regenerate .env once more...")
          generate_env_if_missing()
          env_vals = read_env(root_env)
          missing = [k for k in required if not env_vals.get(k)]
          if missing:
              gen_fallback = os.path.join(repo_dir, "scripts", "generate_env.py")
              if os.path.exists(gen_fallback):
                  (the fallback generator)
                  env_vals = read_env(root_env)
                  missing = [k for k in required if not env_vals.get(k)]
          if missing:
              print("Warning: after auto-generation, these keys are still missing:", missing)
              print("Docker compose may fail; please inspect .env or run scripts/generate_env.py manually.")

      if os.path.exists(root_env):
          print("Copying .env in root to .env in supabase/docker...")
          try:
              supabase_dir = os.path.dirname(supabase_env)
              os.makedirs(supabase_dir, exist_ok=True)
              shutil.copyfile(root_env, supabase_env)
          except Exception as e:
              print("Failed to copy .env to supabase/docker/.env:", e)
  \<close>
  \<open>regenerate\<close> is the body of \<open>if missing:\<close>, \<open>copy_env\<close> the last block. Files are
  whole contents under their paths, and a copy succeeds.
\<close>

definition regenerate :: "world \<Rightarrow> state \<Rightarrow> (exn + unit) \<times> state" where
  "regenerate w s =
     (case generate_env_if_missing w
             (print ''Attempting to regenerate .env once more...''
                (print (''Some required .env keys are missing or empty: ''
                          @ repr_names (missing_keys w s)) s)) of
        (Inl e, s1) \<Rightarrow> (Inl e, s1)
      | (Inr u, s1) \<Rightarrow>
          (let s2 = (if missing_keys w s1 \<noteq> [] \<and> files s1 (gen_fallback w) \<noteq> None
                     then run_fallback_generator w
                            ''Running fallback scripts/generate_env.py to produce a more complete .env...''
                            ''Wrote fallback-generated .env to repo root''
                            ''Failed to run fallback generate_env.py:'' s1
                     else s1)
           in (Inr (),
               if missing_keys w s2 \<noteq> []
               then print ''Docker compose may fail; please inspect .env or run scripts/generate_env.py manually.''
                      (print (''Warning: after auto-generation, these keys are still missing: ''
                                @ repr_names (missing_keys w s2)) s2)
               else s2)))"

definition copy_env :: "world \<Rightarrow> state \<Rightarrow> state" where
  "copy_env w s =
     (case files s (root_env w) of
        None \<Rightarrow> s
      | Some content \<Rightarrow>
          (print ''Copying .env in root to .env in supabase/docker...'' s)
            \<lparr>files := (files s)(supabase_env w \<mapsto> content)\<rparr>)"

definition prepare_supabase_env :: "world \<Rightarrow> state \<Rightarrow> (exn + unit) \<times> state" where
  "prepare_supabase_env w s =
     (case (if files s (root_env w) = None
            then generate_env_if_missing w
                   (print ''No .env found in repo root; attempting to auto-generate one...'' s)
            else (Inr (), s)) of
        (Inl e, s1) \<Rightarrow> (Inl e, s1)
      | (Inr u, s1) \<Rightarrow>
          (case (if missing_keys w s1 \<noteq> [] then regenerate w s1 else (Inr (), s1)) of
             (Inl e, s2) \<Rightarrow> (Inl e, s2)
           | (Inr u, s2) \<Rightarrow> (Inr (), copy_env w s2)))"

section \<open>Example hosts\<close>

text \<open>
  A host on which every child process exits with 0, prints nothing and leaves the files
  alone, and no server answers (each probe takes the three seconds of its socket timeout);
  and a start state with an empty environment, no files and the clock at 0. The examples
  below vary them.
\<close>

definition quiet_host :: world where
  "quiet_host =
     \<lparr>proc = (\<lambda>c fs. (Exited 0 [] [], fs)),
      exc_text = (\<lambda>cmd outcome. ''error''),
      http = (\<lambda>url t. (NoAnswer, 3000)),
      sys_executable = ''python3'',
      repo_dir = ''/repo'',
      which = (\<lambda>program. False),
      gettempdir = ''/tmp'',
      mkstemp_chars = ''abc123''\<rparr>"

definition start_state :: state where
  "start_state = \<lparr>environ = Map.empty, files = Map.empty, printed = [], children = [], clock = 0\<rparr>"

definition default_args :: args where
  "default_args =
     \<lparr>arg_profile = ''cpu'', arg_environment = ''private'', arg_skip_neo4j = False,
      arg_start_nextjs = False, arg_preflight = False\<rparr>"

text \<open>A host on which every child process runs into its timeout.\<close>

definition slow_host :: world where
  "slow_host = quiet_host\<lparr>proc := (\<lambda>c fs. (TimeoutExpired, fs))\<rparr>"

text \<open>A host on which the auth endpoint answers 200 and every other server answers 401,
  as a gateway does that wants a key; and one on which the start of the main stack exits
  with 1.\<close>

definition gated_host :: world where
  "gated_host =
     quiet_host\<lparr>http := (\<lambda>url t. if url = ''http://localhost:9999/health''
                                 then (Answered 200, 10) else (Answered 401, 20))\<rparr>"

definition is_main_up :: "string list \<Rightarrow> bool" where
  "is_main_up cmd = (''docker-compose.yml'' \<in> set cmd \<and> ''up'' \<in> set cmd \<and> ''neo4j'' \<notin> set cmd)"

definition failing_up_host :: world where
  "failing_up_host =
     quiet_host\<lparr>proc := (\<lambda>c fs. if is_main_up (fst c)
                                then (Exited 1 [] ''no space left on device'', fs)
                                else (Exited 0 [] [], fs))\<rparr>"










text \<open>A host on which the first generator finds no template and exits with 1, next to a
  root file that has only one of the required keys.\<close>

definition no_template_host :: world where
  "no_template_host =
     quiet_host\<lparr>proc := (\<lambda>c fs. (Exited 1 [] ''Template not found: /repo/.env.all-in-one.example'', fs))\<rparr>"

definition incomplete_env_state :: state where
  "incomplete_env_state =
     start_state\<lparr>files := [''/repo/.env'' \<mapsto> ''POSTGRES_HOST=db'',
                            ''/repo/scripts/gen_all_in_one_env.py'' \<mapsto> ''#!/usr/bin/env python3'']\<rparr>"

section \<open>Properties\<close>

subsection \<open>The scan\<close>

lemma find_next_free_port_ge_start: "start \<le> find_next_free_port start used"
proof (induction start used rule: find_next_free_port.induct)
  case (1 p used)
  show ?case
  proof (cases "p |\<in>| used \<or> p < 1024")
    case True
    with 1 have "p + 1 \<le> find_next_free_port (p + 1) used" by simp
    with True show ?thesis by (subst find_next_free_port.simps) simp
  next
    case False
    then show ?thesis by (subst find_next_free_port.simps) simp
  qed
qed

lemma find_next_free_port_unprivileged: "1024 \<le> find_next_free_port start used"
proof (induction start used rule: find_next_free_port.induct)
  case (1 p used)
  show ?case
  proof (cases "p |\<in>| used \<or> p < 1024")
    case True
    with 1 show ?thesis by (subst find_next_free_port.simps) simp
  next
    case False
    then show ?thesis by (subst find_next_free_port.simps) simp
  qed
qed

lemma find_next_free_port_free: "find_next_free_port start used |\<notin>| used"
proof (induction start used rule: find_next_free_port.induct)
  case (1 p used)
  show ?case
  proof (cases "p |\<in>| used \<or> p < 1024")
    case True
    with 1 show ?thesis by (subst find_next_free_port.simps) simp
  next
    case False
    then show ?thesis by (subst find_next_free_port.simps) simp
  qed
qed

lemma find_next_free_port_least:
  "start \<le> q \<Longrightarrow> 1024 \<le> q \<Longrightarrow> q |\<notin>| used \<Longrightarrow> find_next_free_port start used \<le> q"
proof (induction start used rule: find_next_free_port.induct)
  case (1 p used)
  show ?case
  proof (cases "p |\<in>| used \<or> p < 1024")
    case True
    with "1.prems" have "p \<noteq> q" by auto
    with "1.prems" have "p + 1 \<le> q" by simp
    with 1 True have "find_next_free_port (p + 1) used \<le> q" by simp
    with True show ?thesis by (subst find_next_free_port.simps) simp
  next
    case False
    with "1.prems" show ?thesis by (subst find_next_free_port.simps) simp
  qed
qed

lemma find_next_free_port_stop:
  "p |\<notin>| used \<Longrightarrow> 1024 \<le> p \<Longrightarrow> find_next_free_port p used = p"
  by (subst find_next_free_port.simps) simp

lemma find_next_free_port_skip:
  "p |\<in>| used \<or> p < 1024 \<Longrightarrow> find_next_free_port p used = find_next_free_port (p + 1) used"
  by (subst find_next_free_port.simps) simp

lemma find_next_free_port_privileged:
  "p \<le> 1024 \<Longrightarrow> find_next_free_port p used = find_next_free_port 1024 used"
proof (induction "nat (1024 - p)" arbitrary: p)
  case 0
  then show ?case by simp
next
  case (Suc n)
  then have "p < 1024" and "n = nat (1024 - (p + 1))" and "p + 1 \<le> 1024" by simp_all
  with Suc.hyps(1) [of "p + 1"] show ?case
    by (simp add: find_next_free_port_skip)
qed

subsection \<open>The pass\<close>

lemma remap_loop_append:
  "remap_loop (xs @ ys) st = remap_loop ys (remap_loop xs st)"
proof (induction xs st rule: remap_loop.induct)
  case (1 st)
  show ?case by simp
next
  case (2 host_p cont_p rest listening remap)
  then show ?case by (simp add: Let_def)
qed

lemma remap_loop_acc:
  "snd (remap_loop xs (listening, acc)) = acc @ snd (remap_loop xs (listening, []))"
proof (induction xs arbitrary: listening acc)
  case Nil
  show ?case by simp
next
  case (Cons x xs)
  obtain host_p cont_p where x: "x = (host_p, cont_p)" by (cases x)
  show ?case
  proof (cases "host_p |\<in>| listening")
    case True
    let ?n = "find_next_free_port (host_p + 1) listening"
    have "snd (remap_loop (x # xs) (listening, acc))
            = (acc @ [(host_p, cont_p, ?n)]) @ snd (remap_loop xs (finsert ?n listening, []))"
      using True x Cons.IH [of "finsert ?n listening" "acc @ [(host_p, cont_p, ?n)]"]
      by (simp add: Let_def)
    moreover have "snd (remap_loop (x # xs) (listening, []))
            = [(host_p, cont_p, ?n)] @ snd (remap_loop xs (finsert ?n listening, []))"
      using True x Cons.IH [of "finsert ?n listening" "[(host_p, cont_p, ?n)]"]
      by (simp add: Let_def)
    ultimately show ?thesis by simp
  next
    case False
    with x Cons.IH [of listening acc] show ?thesis by simp
  qed
qed

lemma remap_loop_listening:
  "fst (remap_loop xs (listening, acc))
     = listening |\<union>| new_ports (snd (remap_loop xs (listening, [])))"
proof (induction xs arbitrary: listening acc)
  case Nil
  show ?case by (simp add: new_ports_def)
next
  case (Cons x xs)
  obtain host_p cont_p where x: "x = (host_p, cont_p)" by (cases x)
  show ?case
  proof (cases "host_p |\<in>| listening")
    case True
    let ?n = "find_next_free_port (host_p + 1) listening"
    have tl: "snd (remap_loop xs (finsert ?n listening, [(host_p, cont_p, ?n)]))
                = (host_p, cont_p, ?n) # snd (remap_loop xs (finsert ?n listening, []))"
      using remap_loop_acc [of xs "finsert ?n listening" "[(host_p, cont_p, ?n)]"] by simp
    show ?thesis
      using True x Cons.IH [of "finsert ?n listening"] tl
      by (auto simp add: Let_def new_ports_def)
  next
    case False
    with x Cons.IH [of listening acc] show ?thesis by simp
  qed
qed

lemma resolve_split:
  "resolve (before @ rest) listening
     = resolve before listening
       @ resolve rest (listening |\<union>| new_ports (resolve before listening))"
proof -
  obtain l r where st: "remap_loop before (listening, []) = (l, r)"
    by (cases "remap_loop before (listening, [])")
  have l: "l = listening |\<union>| new_ports r"
    using remap_loop_listening [of before listening "[]"] st by simp
  show ?thesis
    using st l remap_loop_acc [of rest l r]
    by (simp add: resolve_def remap_loop_append)
qed

lemma resolve_conflict:
  "host_p |\<in>| listening \<Longrightarrow>
   resolve ((host_p, cont_p) # rest) listening
     = (host_p, cont_p, find_next_free_port (host_p + 1) listening)
       # resolve rest (finsert (find_next_free_port (host_p + 1) listening) listening)"
  using remap_loop_acc [of rest "finsert (find_next_free_port (host_p + 1) listening) listening"
      "[(host_p, cont_p, find_next_free_port (host_p + 1) listening)]"]
  by (simp add: resolve_def Let_def)

lemma resolve_no_conflict:
  "host_p |\<notin>| listening \<Longrightarrow> resolve ((host_p, cont_p) # rest) listening = resolve rest listening"
  by (simp add: resolve_def)

lemma resolve_Nil: "resolve [] listening = []"
  by (simp add: resolve_def)

subsection \<open>Stripping and splitting\<close>









lemma read_env_line_add:
  "read_env_line vals line = vals ++ read_env_line Map.empty line"
  by (simp add: read_env_line_def Let_def split: prod.splits)

lemma foldl_read_env_line_add:
  "foldl read_env_line vals ls = vals ++ foldl read_env_line Map.empty ls"
proof (induction ls arbitrary: vals)
  case Nil
  show ?case by simp
next
  case (Cons l ls)
  have "foldl read_env_line vals (l # ls) = read_env_line vals l ++ foldl read_env_line Map.empty ls"
    using Cons.IH [of "read_env_line vals l"] by simp
  also have "\<dots> = vals ++ (read_env_line Map.empty l ++ foldl read_env_line Map.empty ls)"
    using read_env_line_add [of vals l] by simp
  also have "read_env_line Map.empty l ++ foldl read_env_line Map.empty ls
               = foldl read_env_line Map.empty (l # ls)"
    using Cons.IH [of "read_env_line Map.empty l"] by simp
  finally show ?case .
qed

subsection \<open>Lines of a written file\<close>








subsection \<open>Claims about the port conflict resolver\<close>

text \<open>
  C2 (as amended). A declared loopback pair whose host port is in the listening set gets
  exactly one remap: the remaps of the pairs before it, then its own, then those of the
  pairs after it, computed with the ports allocated so far added to the listening set.
  Its new host port is the smallest integer that is at least \<open>host_port + 1\<close>, at least
  1024, not in the listening set and not allocated earlier in the pass. The result is a
  function of the declared pairs and the listening set, so two calls on the same inputs
  agree. The declared pair 8080:80 with 8080 and 8081 listening is remapped to 8082.
\<close>

theorem resolve_remap_smallest_unprivileged_free:
  assumes "host_p |\<in>| listening"
  shows "\<exists>new_p.
           resolve (before @ (host_p, cont_p) # after) listening
             = resolve before listening @ [(host_p, cont_p, new_p)]
               @ resolve after (finsert new_p (listening |\<union>| new_ports (resolve before listening)))
           \<and> host_p + 1 \<le> new_p \<and> 1024 \<le> new_p
           \<and> new_p |\<notin>| listening \<and> new_p |\<notin>| new_ports (resolve before listening)
           \<and> (\<forall>q. host_p + 1 \<le> q \<and> 1024 \<le> q \<and> q |\<notin>| listening
                    \<and> q |\<notin>| new_ports (resolve before listening) \<longrightarrow> new_p \<le> q)
           \<and> resolve [(8080, 80)] {|8080, 8081|} = [(8080, 80, 8082)]"
proof -
  let ?used = "listening |\<union>| new_ports (resolve before listening)"
  let ?n = "find_next_free_port (host_p + 1) ?used"
  from assms have conflict: "host_p |\<in>| ?used" by simp
  have "resolve (before @ (host_p, cont_p) # after) listening
          = resolve before listening @ resolve ((host_p, cont_p) # after) ?used"
    by (rule resolve_split)
  also have "resolve ((host_p, cont_p) # after) ?used
               = (host_p, cont_p, ?n) # resolve after (finsert ?n ?used)"
    using conflict by (rule resolve_conflict)
  finally have shape: "resolve (before @ (host_p, cont_p) # after) listening
          = resolve before listening @ [(host_p, cont_p, ?n)] @ resolve after (finsert ?n ?used)"
    by simp
  have ge: "host_p + 1 \<le> ?n" by (rule find_next_free_port_ge_start)
  have unpriv: "1024 \<le> ?n" by (rule find_next_free_port_unprivileged)
  have "?n |\<notin>| ?used" by (rule find_next_free_port_free)
  then have free: "?n |\<notin>| listening" "?n |\<notin>| new_ports (resolve before listening)"
    by simp_all
  have least: "\<forall>q. host_p + 1 \<le> q \<and> 1024 \<le> q \<and> q |\<notin>| listening
                    \<and> q |\<notin>| new_ports (resolve before listening) \<longrightarrow> ?n \<le> q"
    by (simp add: find_next_free_port_least)
  have "find_next_free_port 8081 {|8080, 8081|} = find_next_free_port 8082 {|8080, 8081|}"
    by (simp add: find_next_free_port_skip)
  also have "\<dots> = 8082"
    by (simp add: find_next_free_port_stop)
  finally have "resolve [(8080, 80)] {|8080, 8081|} = [(8080, 80, 8082)]"
    by (simp add: resolve_conflict resolve_Nil)
  with shape ge unpriv free least show ?thesis by blast
qed

theorem resolve_remap_smallest_unprivileged_free_witness:
  "(1000::int) |\<in>| {|1000|}
   \<and> resolve ([(1000, 80)] @ (1024, 3) # []) {|1000|} = [(1000, 80, 1024), (1024, 3, 1025)]
   \<and> (\<exists>new_p. resolve ([] @ (1000, 80) # [(1024, 3)]) {|1000|}
                  = resolve [] {|1000|} @ [(1000, 80, new_p)]
                    @ resolve [(1024, 3)] (finsert new_p ({|1000|} |\<union>| new_ports (resolve [] {|1000|})))
                \<and> 1024 \<le> new_p)"
proof -
  have h: "(1000::int) |\<in>| {|1000|}" by simp
  have a: "find_next_free_port 1001 {|1000|} = 1024"
    using find_next_free_port_privileged [of 1001 "{|1000|}"]
    by (simp add: find_next_free_port_stop)
  have b: "find_next_free_port 1025 {|1024, 1000|} = 1025"
    by (simp add: find_next_free_port_stop)
  have r: "resolve ([(1000, 80)] @ (1024, 3) # []) {|1000|} = [(1000, 80, 1024), (1024, 3, 1025)]"
    by (simp add: resolve_conflict resolve_Nil a b)
  from resolve_remap_smallest_unprivileged_free [OF h, of "[]" 80 "[(1024, 3)]"] h r
  show ?thesis by blast
qed

text \<open>
  C2 as stated fails below the privileged boundary: with 1000:80 declared and only 1000
  listening, 1001 is free and is at least \<open>host_port + 1\<close>, yet the remap goes to 1024.
\<close>

theorem resolve_not_smallest_free_counterexample:
  "resolve [(1000, 80)] {|1000|} = [(1000, 80, 1024)]
   \<and> (1000::int) + 1 \<le> 1001 \<and> (1001::int) |\<notin>| {|1000|} \<and> (1001::int) < 1024"
proof -
  have "find_next_free_port 1001 {|1000|} = 1024"
    using find_next_free_port_privileged [of 1001 "{|1000|}"]
    by (simp add: find_next_free_port_stop)
  then show ?thesis
    by (simp add: resolve_conflict resolve_Nil)
qed

text \<open>
  C9. The scan never returns a port below 1024, whatever the listening set holds, so
  every new host port of a remap is at least 1024.
\<close>

theorem remapped_ports_unprivileged:
  "1024 \<le> find_next_free_port start used
   \<and> (\<forall>(host_p, cont_p, new_p) \<in> set (resolve parsed listening). 1024 \<le> new_p)"
proof
  show "1024 \<le> find_next_free_port start used"
    by (rule find_next_free_port_unprivileged)
next
  have "\<forall>(host_p, cont_p, new_p) \<in> set (snd (remap_loop parsed (listening, acc))).
          (host_p, cont_p, new_p) \<in> set acc \<or> 1024 \<le> new_p" for acc
  proof (induction parsed arbitrary: listening acc)
    case Nil
    show ?case by auto
  next
    case (Cons x xs)
    obtain h c where x: "x = (h, c)" by (cases x)
    show ?case
    proof (cases "h |\<in>| listening")
      case True
      let ?n = "find_next_free_port (h + 1) listening"
      have "1024 \<le> ?n" by (rule find_next_free_port_unprivileged)
      with Cons.IH [of "finsert ?n listening" "acc @ [(h, c, ?n)]"] True x
      show ?thesis by (auto simp add: Let_def)
    next
      case False
      with Cons.IH [of listening acc] x show ?thesis by simp
    qed
  qed
  from this [of "[]"] show "\<forall>(host_p, cont_p, new_p) \<in> set (resolve parsed listening). 1024 \<le> new_p"
    by (simp add: resolve_def)
qed

theorem remapped_ports_unprivileged_witness:
  "(80, 80, 1024) \<in> set (resolve [(80, 80)] {|80|})
   \<and> 1024 \<le> find_next_free_port 81 {|80|}
   \<and> resolve [(80, 80)] {|80|} = [(80, 80, 1024)]"
proof -
  have "find_next_free_port 81 {|80|} = 1024"
    using find_next_free_port_privileged [of 81 "{|80|}"]
    by (simp add: find_next_free_port_stop)
  then have "resolve [(80, 80)] {|80|} = [(80, 80, 1024)]"
    by (simp add: resolve_conflict resolve_Nil)
  with remapped_ports_unprivileged [of 81 "{|80|}" "[(80, 80)]" "{|80|}"]
  show ?thesis by simp
qed

subsection \<open>Claims about the configuration file reader\<close>






subsection \<open>Claims about the command runner\<close>

lemma run_command_failed_state:
  "snd (run_command_failed error_msg cmd err ignore_errors s) = print (''ERROR: '' @ error_msg) s"
  by (simp add: run_command_failed_def Let_def)

lemma environ_print [simp]: "environ (print text s) = environ s"
  by (simp add: print_def)

lemma files_print [simp]: "files (print text s) = files s"
  by (simp add: print_def)

lemma children_print [simp]: "children (print text s) = children s"
  by (simp add: print_def)

lemma printed_print [simp]: "printed (print text s) = printed s @ [text]"
  by (simp add: print_def)

lemma child_env_print [simp]: "child_env env_override (print text s) = child_env env_override s"
  by (cases env_override) (simp_all add: child_env_def)

text \<open>What run\_command leaves of the state, whatever the child did: the environment of
  the script as it was, one more child with the merged environment, and the files as the
  child left them.\<close>

lemma run_command_state:
  "environ (snd (run_command w cmd cwd env_override ignore_errors timeout s)) = environ s
   \<and> children (snd (run_command w cmd cwd env_override ignore_errors timeout s))
       = children s @ [(cmd, cwd, child_env env_override s, timeout)]
   \<and> files (snd (run_command w cmd cwd env_override ignore_errors timeout s))
       = snd (proc w (cmd, cwd, child_env env_override s, timeout) (files s))"
proof -
  obtain outcome fs where p: "proc w (cmd, cwd, child_env env_override s, timeout) (files s) = (outcome, fs)"
    by (cases "proc w (cmd, cwd, child_env env_override s, timeout) (files s)")
  show ?thesis
  proof (cases outcome)
    case (Exited rc out err)
    with p show ?thesis
      by (simp add: run_command_def Let_def run_command_failed_def)
  next
    case TimeoutExpired
    with p show ?thesis
      by (simp add: run_command_def Let_def run_command_failed_def)
  next
    case FileNotFoundError
    with p show ?thesis
      by (cases cmd) (simp_all add: run_command_def Let_def run_command_failed_def)
  next
    case OtherException
    with p show ?thesis
      by (simp add: run_command_def Let_def run_command_failed_def)
  qed
qed

lemma discard_fst: "fst (discard r) = (case fst r of Inl e \<Rightarrow> Inl e | Inr v \<Rightarrow> Inr ())"
  by (cases r; cases "fst r") (simp_all add: discard_def)

lemma discard_snd [simp]: "snd (discard r) = snd r"
  by (cases r; cases "fst r") (simp_all add: discard_def)

lemma run_command_exited:
  assumes "fst (proc w (cmd, cwd, child_env env_override s, timeout) (files s)) = Exited rc out err"
  shows "fst (run_command w cmd cwd env_override False timeout s)
           = (if rc = 0 then Inr (Some \<lparr>returncode = rc, stdout = out, stderr = err\<rparr>)
              else Inl (CommandExecutionError
                          (''Unexpected error running command: '' @ exc_text w cmd (Exited rc out err))
                          cmd (- 1) '''' (exc_text w cmd (Exited rc out err))))"
proof -
  obtain fs where "proc w (cmd, cwd, child_env env_override s, timeout) (files s) = (Exited rc out err, fs)"
    using assms by (cases "proc w (cmd, cwd, child_env env_override s, timeout) (files s)") simp
  then show ?thesis
    by (simp add: run_command_def Let_def run_command_failed_def)
qed

text \<open>
  C8. The overrides are merged onto a copy of the ambient environment, and the merged
  environment goes to the child process only: after the call \<open>os.environ\<close> is what it was
  before, whether the call returned or raised, and the child that was started has the
  ambient environment updated with the overrides.
\<close>

theorem run_command_leaves_ambient_environment:
  "environ (snd (run_command w cmd cwd (Some overrides) ignore_errors timeout s)) = environ s
   \<and> children (snd (run_command w cmd cwd (Some overrides) ignore_errors timeout s))
       = children s @ [(cmd, cwd, environ s ++ overrides, timeout)]"
  using run_command_state [of w cmd cwd "Some overrides" ignore_errors timeout s]
  by (simp add: child_env_def)

text \<open>
  C3 (as amended). When the command exceeds its timeout, run\_command prints the line
  \<open>ERROR: Command timed out after ... seconds: ...\<close> after its \<open>Running:\<close> line, with
  \<open>ignore_errors\<close> set or not. With \<open>ignore_errors\<close> set it then does not raise and
  returns \<open>None\<close>: there is no result object, so no exit code and no stderr text. Without
  \<open>ignore_errors\<close> it raises a CommandExecutionError with exit code -1 and stderr
  \<open>Timeout\<close>.
\<close>

theorem run_command_on_timeout:
  assumes "fst (proc w (cmd, cwd, child_env env_override s, timeout) (files s)) = TimeoutExpired"
  shows "fst (run_command w cmd cwd env_override True timeout s) = Inr None
         \<and> fst (run_command w cmd cwd env_override False timeout s)
             = Inl (CommandExecutionError
                      (''Command timed out after '' @ str_timeout timeout @ '' seconds: '' @ join '' '' cmd)
                      cmd (- 1) '''' ''Timeout'')
         \<and> printed (snd (run_command w cmd cwd env_override ignore_errors timeout s))
             = printed s
               @ [''Running: '' @ join '' '' cmd,
                  ''ERROR: Command timed out after '' @ str_timeout timeout @ '' seconds: ''
                    @ join '' '' cmd]"
proof -
  obtain fs where "proc w (cmd, cwd, child_env env_override s, timeout) (files s) = (TimeoutExpired, fs)"
    using assms by (cases "proc w (cmd, cwd, child_env env_override s, timeout) (files s)") simp
  then show ?thesis
    by (simp add: run_command_def Let_def run_command_failed_def)
qed

theorem run_command_on_timeout_witness:
  "fst (proc slow_host ([''sleep'', ''5''], None, child_env None start_state, Some 1) (files start_state))
     = TimeoutExpired
   \<and> fst (run_command slow_host [''sleep'', ''5''] None None True (Some 1) start_state) = Inr None
   \<and> e_exit_code (projl (fst (run_command slow_host [''sleep'', ''5''] None None False (Some 1) start_state)))
       = - 1
   \<and> e_stderr (projl (fst (run_command slow_host [''sleep'', ''5''] None None False (Some 1) start_state)))
       = ''Timeout''
   \<and> printed (snd (run_command slow_host [''sleep'', ''5''] None None True (Some 1) start_state))
       = [''Running: sleep 5'', ''ERROR: Command timed out after 1 seconds: sleep 5'']"
proof -
  have h: "fst (proc slow_host ([''sleep'', ''5''], None, child_env None start_state, Some 1)
                 (files start_state)) = TimeoutExpired"
    by (simp add: slow_host_def quiet_host_def)
  have p: "printed start_state = []"
    by (simp add: start_state_def)
  have t: "str_timeout (Some 1) = ''1''"
    by code_simp
  from run_command_on_timeout [OF h, of True] h p t show ?thesis
    by simp
qed

text \<open>
  C3 as stated fails on what is returned: for a command that sleeps five seconds under a
  timeout of one second, the call with \<open>ignore_errors\<close> returns \<open>None\<close>, not a result
  with exit code -1 and stderr \<open>Timeout\<close>.
\<close>

theorem run_command_timeout_returns_none_counterexample:
  "fst (run_command slow_host [''sleep'', ''5''] None None True (Some 1) start_state) = Inr None
   \<and> fst (run_command slow_host [''sleep'', ''5''] None None True (Some 1) start_state)
       \<noteq> Inr (Some \<lparr>returncode = - 1, stdout = '''', stderr = ''Timeout''\<rparr>)"
  by (simp add: run_command_def Let_def run_command_failed_def slow_host_def quiet_host_def
      start_state_def print_def child_env_def)

subsection \<open>Probes and waits\<close>

lemma http_get_answered:
  "fst (http w url (clock s)) = Answered code \<Longrightarrow>
   fst (http_get w url s) = (if 200 \<le> code \<and> code < 300 then Some code else None)"
  by (cases "http w url (clock s)") (simp add: http_get_def urlopen_def Let_def)

lemma http_get_no_answer:
  "fst (http w url (clock s)) = NoAnswer \<Longrightarrow> fst (http_get w url s) = None"
  by (cases "http w url (clock s)") (simp add: http_get_def urlopen_def Let_def)

lemma acceptable_http_get:
  "acceptable (fst (http_get w url s))
     = (\<exists>code. fst (http w url (clock s)) = Answered code \<and> 200 \<le> code \<and> code < 300)"
proof (cases "fst (http w url (clock s))")
  case (Answered code)
  then show ?thesis
    using http_get_answered [of w url s code] by (auto simp add: acceptable_def)
next
  case NoAnswer
  then show ?thesis
    using http_get_no_answer [of w url s] by (simp add: acceptable_def)
qed

lemma probe_targets_single:
  "name |\<notin>| ready \<Longrightarrow>
   fst (probe_targets w [(name, url)] ready s)
     = (if acceptable (fst (http_get w url s)) then finsert name ready else ready)"
  by (cases "http_get w url s") simp

text \<open>What one pass over the targets can add to the ready set.\<close>

lemma probe_targets_ready:
  "fst (probe_targets w targets ready s) |\<subseteq>| ready |\<union>| fset_of_list (map fst targets)"
proof (induction targets arbitrary: ready s)
  case Nil
  show ?case by simp
next
  case (Cons t targets)
  obtain name url where t: "t = (name, url)" by (cases t)
  obtain code s1 where g: "http_get w url s = (code, s1)" by (cases "http_get w url s")
  show ?case
  proof (cases "name |\<in>| ready")
    case True
    with t Cons.IH [of ready s] show ?thesis by auto
  next
    case False
    show ?thesis
    proof (cases "acceptable code")
      case True
      let ?s2 = "print (''  '' @ name @ '' up (HTTP '' @ str_int (the code) @ '')'') s1"
      from Cons.IH [of "finsert name ready" ?s2] t g False True show ?thesis by auto
    next
      case no: False
      from Cons.IH [of ready s1] t g False no show ?thesis by auto
    qed
  qed
qed

lemma probe_targets_unanswered:
  assumes "\<And>s. \<not> acceptable (fst (http_get w url s))" and "name |\<notin>| ready"
    and "\<And>u. (name, u) \<in> set targets \<Longrightarrow> u = url"
  shows "name |\<notin>| fst (probe_targets w targets ready s)"
  using assms(2,3)
proof (induction targets arbitrary: ready s)
  case Nil
  then show ?case by simp
next
  case (Cons t targets)
  obtain n u where t: "t = (n, u)" by (cases t)
  obtain code s1 where g: "http_get w u s = (code, s1)" by (cases "http_get w u s")
  have rest: "\<And>u. (name, u) \<in> set targets \<Longrightarrow> u = url"
    using Cons.prems(2) by simp
  show ?case
  proof (cases "n |\<in>| ready")
    case True
    with t Cons.IH [OF Cons.prems(1) rest, of s] show ?thesis by simp
  next
    case False
    show ?thesis
    proof (cases "acceptable code")
      case True
      have "n \<noteq> name"
      proof
        assume "n = name"
        with t Cons.prems(2) have "u = url" by simp
        with g True assms(1) [of s] show False by simp
      qed
      then have "name |\<notin>| finsert n ready"
        using Cons.prems(1) by simp
      from Cons.IH [OF this rest] t g False True show ?thesis by simp
    next
      case no: False
      from Cons.IH [OF Cons.prems(1) rest, of s1] t g False no show ?thesis by simp
    qed
  qed
qed



text \<open>A target that never gives an acceptable answer keeps the wait from succeeding.\<close>

lemma wait_for_supabase_loop_unanswered:
  "(\<And>s. \<not> acceptable (fst (http_get w ''http://localhost:8000/rest/v1/'' s))) \<Longrightarrow>
   ''rest'' |\<notin>| ready \<Longrightarrow> ready |\<subseteq>| {|''auth'', ''rest''|} \<Longrightarrow>
   fst (wait_for_supabase_loop w start timeout ready s) = False"
proof (induction w start timeout ready s rule: wait_for_supabase_loop.induct)
  case (1 w start timeout ready s)
  show ?case
  proof (cases "clock s - start < 1000 * timeout")
    case running: True
    obtain ready' s1 where p: "probe_targets w supabase_targets ready s = (ready', s1)"
      by (cases "probe_targets w supabase_targets ready s")
    have sub: "ready' |\<subseteq>| {|''auth'', ''rest''|}"
      using probe_targets_ready [of w supabase_targets ready s] p "1.prems"(3)
      by (auto simp add: supabase_targets_def)
    have "''rest'' |\<notin>| fst (probe_targets w supabase_targets ready s)"
      using "1.prems"(1,2)
      by (rule probe_targets_unanswered) (auto simp add: supabase_targets_def)
    with p have norest: "''rest'' |\<notin>| ready'" by simp
    with sub have "ready' |\<subseteq>| {|''auth''|}" by auto
    then have "fcard ready' \<le> fcard {|''auth''|}"
      by (rule fcard_mono)
    moreover have "fcard {|''auth''|} = 1"
      by (simp add: fcard_finsert_if)
    ultimately have few: "fcard ready' \<noteq> length supabase_targets"
      by (simp add: supabase_targets_def)
    have "fst (wait_for_supabase_loop w start timeout ready' (sleep 3 s1)) = False"
      using running p [symmetric] few "1.prems"(1) norest sub by (rule "1.IH")
    with running p few show ?thesis
      by (simp add: wait_for_supabase_loop.simps [of w start timeout ready s])
  next
    case False
    then show ?thesis
      by (simp add: wait_for_supabase_loop.simps [of w start timeout ready s])
  qed
qed

lemma wait_for_supabase_unanswered:
  assumes "\<And>s. \<not> acceptable (fst (http_get w ''http://localhost:8000/rest/v1/'' s))"
  shows "fst (wait_for_supabase w timeout s) = False"
  using wait_for_supabase_loop_unanswered [OF assms, of "{||}"]
  by (simp add: wait_for_supabase_def Let_def)





subsection \<open>Claims about readiness\<close>

text \<open>
  C1 (the code at the failing input). A probe that is answered with a 4xx or 5xx status
  does not mark its target ready: \<open>urlopen\<close> raises HTTPError for such a response,
  \<open>http_get\<close> turns every exception into \<open>None\<close>, and the test
  \<open>code and code < 600\<close> then fails, although the status is below 600.
\<close>

theorem error_status_leaves_target_unready:
  assumes "fst (http w url (clock s)) = Answered code" and "400 \<le> code" and "code < 600"
    and "name |\<notin>| ready"
  shows "fst (http_get w url s) = None \<and> name |\<notin>| fst (probe_targets w [(name, url)] ready s)"
proof -
  from assms(1,2) have none: "fst (http_get w url s) = None"
    using http_get_answered [of w url s code] by simp
  then have "\<not> acceptable (fst (http_get w url s))"
    by (simp add: acceptable_def)
  with assms(4) have "fst (probe_targets w [(name, url)] ready s) = ready"
    using probe_targets_single [of name ready w url s] by (simp del: probe_targets.simps)
  with none assms(4) show ?thesis by simp
qed

lemma gated_host_rest_unanswered:
  "\<not> acceptable (fst (http_get gated_host ''http://localhost:8000/rest/v1/'' s))"
  by (simp add: acceptable_http_get gated_host_def quiet_host_def)

theorem error_status_leaves_target_unready_witness:
  "fst (http gated_host ''http://localhost:8000/rest/v1/'' (clock start_state)) = Answered 401
   \<and> (400::int) \<le> 401 \<and> (401::int) < 600 \<and> ''rest'' |\<notin>| ({||} :: string fset)
   \<and> fst (http_get gated_host ''http://localhost:8000/rest/v1/'' start_state) = None
   \<and> ''rest'' |\<notin>| fst (probe_targets gated_host [(''rest'', ''http://localhost:8000/rest/v1/'')] {||}
                           start_state)
   \<and> fst (wait_for_supabase gated_host 180 start_state) = False"
proof -
  have h: "fst (http gated_host ''http://localhost:8000/rest/v1/'' (clock start_state)) = Answered 401"
    by (simp add: gated_host_def quiet_host_def)
  have never: "fst (wait_for_supabase gated_host 180 start_state) = False"
    using gated_host_rest_unanswered by (rule wait_for_supabase_unanswered)
  from error_status_leaves_target_unready [OF h, of "''rest''" "{||}"] h never
  show ?thesis by simp
qed

text \<open>The targets a probe does mark ready are those whose server answers with a 2xx
  status.\<close>

lemma target_ready_iff_2xx:
  "name |\<notin>| ready \<Longrightarrow>
   (name |\<in>| fst (probe_targets w [(name, url)] ready s))
     = (\<exists>code. fst (http w url (clock s)) = Answered code \<and> 200 \<le> code \<and> code < 300)"
  using probe_targets_single [of name ready w url s]
  by (simp add: acceptable_http_get del: probe_targets.simps)

subsection \<open>Claims about the launch\<close>




lemma compose_command_result:
  assumes "fst (proc w (cmd, None, child_env (Some ov) s, None) (files s)) = Exited rc out err"
  shows "fst (discard (run_command w cmd None (Some ov) False None s))
           = (if rc = 0 then Inr ()
              else Inl (CommandExecutionError
                          (''Unexpected error running command: '' @ exc_text w cmd (Exited rc out err))
                          cmd (- 1) '''' (exc_text w cmd (Exited rc out err))))"
  using run_command_exited [OF assms] by (simp add: discard_fst)

lemma proc_quiet_host [simp]: "proc quiet_host c fs = (Exited 0 [] [], fs)"
  by (simp add: quiet_host_def)

lemma http_quiet_host [simp]: "http quiet_host url t = (NoAnswer, 3000)"
  by (simp add: quiet_host_def)

lemma failing_up_host_same [simp]:
  "http failing_up_host = http quiet_host" "exc_text failing_up_host cmd outcome = ''error''"
  "mkstemp failing_up_host = ''/tmp/docker-override-abc123.yml''"
  by (simp_all add: failing_up_host_def quiet_host_def mkstemp_def startswith_def)

lemma proc_failing_up_host:
  "proc failing_up_host (cmd, cwd, env, timeout) fs
     = (if is_main_up cmd then (Exited 1 [] ''no space left on device'', fs) else (Exited 0 [] [], fs))"
  by (simp add: failing_up_host_def)

lemma default_args_simps [simp]:
  "arg_profile default_args = ''cpu''" "arg_environment default_args = ''private''"
  "\<not> arg_skip_neo4j default_args" "\<not> arg_start_nextjs default_args"
  by (simp_all add: default_args_def)



lemma ensure_local_images_ok:
  assumes "w = quiet_host \<or> w = failing_up_host"
  shows "fst (ensure_local_images w s) = Inr ()"
proof -
  have "\<not> is_main_up [''docker'', ''image'', ''inspect'', portal_image]"
    by (simp add: is_main_up_def portal_image_def)
  then have "proc w ([''docker'', ''image'', ''inspect'', portal_image], None, environ s, None) (files s)
          = (Exited 0 [] [], files s)"
    using assms by (auto simp add: proc_failing_up_host)
  then show ?thesis
    by (simp add: ensure_local_images_def subprocess_def Let_def)
qed

text \<open>start\_local\_ai after the image check: the result of the start command, and the
  state after the \<open>finally\<close> block.\<close>

lemma environ_write_overlay [simp]: "environ (snd (write_overlay w remap s)) = environ s"
  by (simp add: write_overlay_def)

lemma docker_env_override_environ:
  "environ s = environ s' \<Longrightarrow> docker_env_override s = docker_env_override s'"
  by (simp add: docker_env_override_def)

lemma start_local_ai_unfold:
  assumes "ensure_local_images w (print ''Starting local AI services...'' s) = (Inr (), s1)"
    and "detect_port_conflicts w s1 = (remap, s2)"
  shows "start_local_ai w profile environment s
           = discard
               (fst (run_command w (compose_up_cmd profile environment (fst (write_overlay w remap s2)))
                       None (Some (docker_env_override s2)) False None (snd (write_overlay w remap s2))),
                remove_overlay (fst (write_overlay w remap s2))
                  (snd (run_command w (compose_up_cmd profile environment (fst (write_overlay w remap s2)))
                          None (Some (docker_env_override s2)) False None (snd (write_overlay w remap s2)))))"
proof -
  obtain t s3 where wo: "write_overlay w remap s2 = (t, s3)"
    by (cases "write_overlay w remap s2")
  then have "environ s3 = environ s2"
    using environ_write_overlay [of w remap s2] by simp
  then have ov: "docker_env_override s3 = docker_env_override s2"
    by (rule docker_env_override_environ)
  obtain r s4 where rc: "run_command w (compose_up_cmd profile environment t) None
                           (Some (docker_env_override s2)) False None s3 = (r, s4)"
    by (cases "run_command w (compose_up_cmd profile environment t) None
                 (Some (docker_env_override s2)) False None s3")
  show ?thesis
    using assms wo ov rc by (simp add: start_local_ai_def)
qed

lemma start_local_ai_result:
  assumes "fst (ensure_local_images w (print ''Starting local AI services...'' s)) = Inr ()"
  obtains t s3 where "t = None \<or> t = Some (mkstemp w)"
    and "fst (start_local_ai w profile environment s)
           = fst (discard (run_command w (compose_up_cmd profile environment t) None
                             (Some (docker_env_override s3)) False None s3))"
proof -
  let ?s1 = "snd (ensure_local_images w (print ''Starting local AI services...'' s))"
  let ?remap = "fst (detect_port_conflicts w ?s1)"
  let ?s2 = "snd (detect_port_conflicts w ?s1)"
  let ?t = "fst (write_overlay w ?remap ?s2)"
  let ?s3 = "snd (write_overlay w ?remap ?s2)"
  have e: "ensure_local_images w (print ''Starting local AI services...'' s) = (Inr (), ?s1)"
    using assms by (simp add: prod_eq_iff)
  have d: "detect_port_conflicts w ?s1 = (?remap, ?s2)"
    by simp
  have t: "?t = None \<or> ?t = Some (mkstemp w)"
    by (simp add: write_overlay_def)
  have "docker_env_override ?s3 = docker_env_override ?s2"
    by (rule docker_env_override_environ) simp
  then have "fst (start_local_ai w profile environment s)
          = fst (discard (run_command w (compose_up_cmd profile environment ?t) None
                            (Some (docker_env_override ?s3)) False None ?s3))"
    using start_local_ai_unfold [OF e d, of profile environment] by (simp add: discard_fst)
  with t show ?thesis by (rule that)
qed


lemma start_local_ai_failing_up_host:
  "isl (fst (start_local_ai failing_up_host (Some ''cpu'') (Some ''private'') s))"
proof -
  obtain t s3 where t: "t = None \<or> t = Some (mkstemp failing_up_host)"
    and r: "fst (start_local_ai failing_up_host (Some ''cpu'') (Some ''private'') s)
       = fst (discard (run_command failing_up_host (compose_up_cmd (Some ''cpu'') (Some ''private'') t) None
                         (Some (docker_env_override s3)) False None s3))"
    using start_local_ai_result [of failing_up_host s "Some ''cpu''" "Some ''private''"]
      ensure_local_images_ok [of failing_up_host] by metis
  from t have "is_main_up (compose_up_cmd (Some ''cpu'') (Some ''private'') t)"
    by (auto simp add: is_main_up_def compose_up_cmd_def profile_args_def)
  then have "fst (proc failing_up_host (compose_up_cmd (Some ''cpu'') (Some ''private'') t, None,
               child_env (Some (docker_env_override s3)) s3, None) (files s3))
          = Exited 1 [] ''no space left on device''"
    by (simp add: proc_failing_up_host)
  from compose_command_result [OF this] r show ?thesis by simp
qed






subsection \<open>Claims about the overlay file\<close>



lemma children_remove_overlay [simp]: "children (remove_overlay t s) = children s"
  by (simp add: remove_overlay_def split: option.splits)










subsection \<open>Claims about the environment files\<close>

text \<open>With a root file in which every required key has a non-empty value, no child
  process is started and the root file is copied to the nested stack directory.\<close>

lemma prepare_supabase_env_complete:
  assumes "files s (root_env w) = Some content" and "missing_keys w s = []"
  shows "prepare_supabase_env w s
           = (Inr (), (print ''Copying .env in root to .env in supabase/docker...'' s)
                        \<lparr>files := (files s)(supabase_env w \<mapsto> content)\<rparr>)"
    and "children (snd (prepare_supabase_env w s)) = children s"
    and "files (snd (prepare_supabase_env w s)) (supabase_env w) = files s (root_env w)"
  using assms by (simp_all add: prepare_supabase_env_def copy_env_def)

text \<open>
  C5 (the code at the failing input). With a root file that lacks a required key and a
  first generator that exits with a non-zero code, run\_command raises
  CommandExecutionError; the handler around it catches CalledProcessError only, so the
  exception leaves prepare\_supabase\_env before the copy: the root file exists, and the
  files are left as the generator left them.
\<close>

theorem failed_generator_skips_copy:
  assumes "files s (root_env w) = Some content" and "missing_keys w s \<noteq> []"
    and "files s (gen_script w) \<noteq> None"
    and "fst (proc w ([sys_executable w, gen_script w], Some (repo_dir w), environ s, None) (files s))
           = Exited rc out err"
    and "rc \<noteq> 0"
  shows "isl (fst (prepare_supabase_env w s))
         \<and> files (snd (prepare_supabase_env w s))
             = snd (proc w ([sys_executable w, gen_script w], Some (repo_dir w), environ s, None) (files s))"
proof -
  let ?s1 = "print ''Attempting to regenerate .env once more...''
               (print (''Some required .env keys are missing or empty: '' @ repr_names (missing_keys w s)) s)"
  let ?s2 = "print ''Generating .env from scripts/gen_all_in_one_env.py...'' ?s1"
  let ?cmd = "[sys_executable w, gen_script w]"
  let ?left = "snd (proc w (?cmd, Some (repo_dir w), environ s, None) (files s))"
  have "fst (proc w (?cmd, Some (repo_dir w), child_env None ?s2, None) (files ?s2)) = Exited rc out err"
    using assms(4) by (simp add: child_env_def)
  from run_command_exited [OF this] assms(5)
  have raised: "isl (fst (run_command w ?cmd (Some (repo_dir w)) None False None ?s2))"
    by simp
  have kept: "files (snd (run_command w ?cmd (Some (repo_dir w)) None False None ?s2)) = ?left"
    using run_command_state [of w ?cmd "Some (repo_dir w)" None False None ?s2]
    by (simp add: child_env_def)
  obtain r s3 where rc: "run_command w ?cmd (Some (repo_dir w)) None False None ?s2 = (r, s3)"
    by (cases "run_command w ?cmd (Some (repo_dir w)) None False None ?s2")
  with raised obtain e where e: "r = Inl e" by (cases r) simp_all
  from rc kept have s3: "files s3 = ?left" by simp
  have "generate_env_if_missing w ?s1 = (Inl e, s3)"
    using assms(3) rc e by (simp add: generate_env_if_missing_def)
  then have "regenerate w s = (Inl e, s3)"
    by (simp add: regenerate_def)
  then have "prepare_supabase_env w s = (Inl e, s3)"
    using assms(1,2) by (simp add: prepare_supabase_env_def)
  with s3 show ?thesis by simp
qed

lemma no_template_host_paths:
  "root_env no_template_host = ''/repo/.env''"
  "gen_script no_template_host = ''/repo/scripts/gen_all_in_one_env.py''"
  "supabase_env no_template_host = ''/repo/supabase/docker/.env''"
  by (simp_all add: root_env_def gen_script_def supabase_env_def no_template_host_def quiet_host_def
      startswith_def)

lemma incomplete_env_missing:
  "missing_keys no_template_host incomplete_env_state
     = [''POSTGRES_DB'', ''POSTGRES_PORT'', ''NEO4J_AUTH'', ''DOCKER_SOCKET_LOCATION'']"
  by (simp add: missing_keys_def required_def no_template_host_paths incomplete_env_state_def
      start_state_def read_env_def read_env_lines_def read_env_line_def strip_def isspace_def
      startswith_def split_eq_def LF_def CR_def)

theorem failed_generator_skips_copy_witness:
  "files incomplete_env_state (root_env no_template_host) = Some ''POSTGRES_HOST=db''
   \<and> missing_keys no_template_host incomplete_env_state
       = [''POSTGRES_DB'', ''POSTGRES_PORT'', ''NEO4J_AUTH'', ''DOCKER_SOCKET_LOCATION'']
   \<and> files incomplete_env_state (gen_script no_template_host) = Some ''#!/usr/bin/env python3''
   \<and> proc no_template_host
         ([sys_executable no_template_host, gen_script no_template_host], Some (repo_dir no_template_host),
          environ incomplete_env_state, None) (files incomplete_env_state)
       = (Exited 1 [] ''Template not found: /repo/.env.all-in-one.example'', files incomplete_env_state)
   \<and> (1::int) \<noteq> 0
   \<and> isl (fst (prepare_supabase_env no_template_host incomplete_env_state))
   \<and> files (snd (prepare_supabase_env no_template_host incomplete_env_state)) = files incomplete_env_state
   \<and> files (snd (prepare_supabase_env no_template_host incomplete_env_state))
         (supabase_env no_template_host) = None"
proof -
  have h1: "files incomplete_env_state (root_env no_template_host) = Some ''POSTGRES_HOST=db''"
    by (simp add: no_template_host_paths incomplete_env_state_def start_state_def)
  have h2: "missing_keys no_template_host incomplete_env_state \<noteq> []"
    by (simp add: incomplete_env_missing)
  have h3: "files incomplete_env_state (gen_script no_template_host) = Some ''#!/usr/bin/env python3''"
    by (simp add: no_template_host_paths incomplete_env_state_def start_state_def)
  then have h3': "files incomplete_env_state (gen_script no_template_host) \<noteq> None"
    by simp
  have h4: "proc no_template_host
         ([sys_executable no_template_host, gen_script no_template_host], Some (repo_dir no_template_host),
          environ incomplete_env_state, None) (files incomplete_env_state)
       = (Exited 1 [] ''Template not found: /repo/.env.all-in-one.example'', files incomplete_env_state)"
    by (simp add: no_template_host_def)
  have h5: "(1::int) \<noteq> 0" by simp
  have shadow: "files incomplete_env_state (supabase_env no_template_host) = None"
    by (simp add: no_template_host_paths incomplete_env_state_def start_state_def)
  have h4': "fst (proc no_template_host
         ([sys_executable no_template_host, gen_script no_template_host], Some (repo_dir no_template_host),
          environ incomplete_env_state, None) (files incomplete_env_state))
       = Exited 1 [] ''Template not found: /repo/.env.all-in-one.example''"
    using h4 by simp
  from failed_generator_skips_copy [OF h1 h2 h3' h4' h5] h1 h3 h4 shadow incomplete_env_missing
  show ?thesis by simp
qed

end
